theory Spec2Isabelle
  imports Complex_Main "HOL-Library.AList" "HOL-Library.Log_Nat"
begin

section \<open>The snowflake lattice of main.js\<close>

text \<open>
  A shallow embedding of the simulation core of \<^verbatim>\<open>src/main.js\<close>: the global
  \<^verbatim>\<open>params\<close> object, the class \<^verbatim>\<open>SnowflakeCell\<close> and the class \<^verbatim>\<open>CrystalLattice\<close>.

  \<^item> The records of parameters, cells and lattices are parametric in the type \<open>'m\<close> of
    the masses and thresholds. The methods that compute with masses are given twice: over
    the reals, which is the algorithm in exact arithmetic, and over the numbers of
    JavaScript (doubles with rounding, overflow to \<^verbatim>\<open>Infinity\<close>, and NaN), with the
    suffix \<open>_d\<close>. Statements about the order of the updates, the flags and the
    attachment rule are made over the reals; statements about the values of the masses
    (their sign, their total) are made over the doubles. Integer valued numbers
    (coordinates, the radius, the age) are \<open>int\<close>.
  \<^item> The \<^verbatim>\<open>Map\<close> of cells is an association list in insertion order. Its keys are the
    strings \<^verbatim>\<open>`${q},${r}`\<close>, which are in one-to-one correspondence with the pairs
    \<open>(q, r)\<close> used here.
  \<^item> A cell object is addressed by its key; a reference to a cell (an entry of
    \<^verbatim>\<open>_neighbors\<close> or of \<^verbatim>\<open>attachedNeighbors\<close>) is that key, and reading a field of
    the referenced cell is a lookup in the lattice as it is at that moment.
  \<^item> \<^verbatim>\<open>Math.random()\<close> is a value supplied from outside, one per cell and step.
  \<^item> A thrown exception, and a mass that would become \<^verbatim>\<open>undefined\<close>, is an error value.
\<close>

subsection \<open>Parameters\<close>

record 'm params =
  beta :: 'm
  theta :: 'm
  alpha :: 'm
  kappa :: 'm
  mu :: 'm
  upsilon :: 'm
  sigma :: 'm
  gamma :: 'm

text \<open>The values written in the source.\<close>

definition default_params :: "real params" where
  "default_params =
     \<lparr>beta = 13 / 10, theta = 25 / 1000, alpha = 8 / 100, kappa = 3 / 1000, mu = 7 / 100,
      upsilon = 5 / 100000, sigma = 1 / 100000, gamma = 1 / 2\<rparr>"

subsection \<open>Hexagonal grid helpers\<close>

type_synonym coord = "int \<times> int"

definition HEX_DX :: "int list" where
  "HEX_DX = [1, 0, -1, -1, 0, 1]"

definition HEX_DY :: "int list" where
  "HEX_DY = [0, 1, 1, 0, -1, -1]"

subsection \<open>Cells\<close>

text \<open>
  The fields of \<^verbatim>\<open>SnowflakeCell\<close>. \<open>cell_q\<close> and \<open>cell_r\<close> are \<^verbatim>\<open>q\<close> and \<^verbatim>\<open>r\<close>;
  \<open>neighbors_memo\<close> is \<^verbatim>\<open>_neighbors\<close> (\<open>None\<close> for \<^verbatim>\<open>null\<close>); \<open>next_dm\<close> is
  \<^verbatim>\<open>_next_dm\<close> and \<open>attachedNeighbors\<close> the field of that name, both \<open>None\<close> while the
  property has never been assigned. The back reference \<^verbatim>\<open>lattice\<close> is the lattice
  argument of the methods.
\<close>

record 'm SnowflakeCell =
  cell_q :: int
  cell_r :: int
  diffusiveMass :: 'm
  boundaryMass :: 'm
  crystalMass :: 'm
  attached :: bool
  boundary :: bool
  age :: int
  neighbors_memo :: "coord list option"
  attachmentFlag :: bool
  attachedNeighbors :: "coord list option"
  next_dm :: "'m option"

record 'm CrystalLattice =
  lattice_size :: int
  cells :: "(coord \<times> 'm SnowflakeCell) list"

datatype error = TypeError | UndefinedMass

definition new_cell :: "('m::zero) params \<Rightarrow> int \<Rightarrow> int \<Rightarrow> 'm SnowflakeCell" where
  "new_cell P q r =
     \<lparr>cell_q = q, cell_r = r, diffusiveMass = gamma P, boundaryMass = 0, crystalMass = 0,
      attached = False, boundary = False, age = 0, neighbors_memo = None,
      attachmentFlag = False, attachedNeighbors = None, next_dm = None\<rparr>"

definition get :: "'m CrystalLattice \<Rightarrow> int \<Rightarrow> int \<Rightarrow> 'm SnowflakeCell option" where
  "get L q r = map_of (cells L) (q, r)"

text \<open>
  The cell objects behind a list of references, as they are in the lattice now. A reference
  is made from a key of the Map and the Map never loses a key, so none is dropped.
\<close>

definition objs :: "'m CrystalLattice \<Rightarrow> coord list \<Rightarrow> 'm SnowflakeCell list" where
  "objs L ks = List.map_filter (map_of (cells L)) ks"

text \<open>\<^verbatim>\<open>filter\<close> on a list of references: those whose object satisfies the test.\<close>

definition refs_where :: "'m CrystalLattice \<Rightarrow> ('m SnowflakeCell \<Rightarrow> bool) \<Rightarrow> coord list \<Rightarrow> coord list" where
  "refs_where L p ks =
     filter (\<lambda>k. case map_of (cells L) k of None \<Rightarrow> False | Some n \<Rightarrow> p n) ks"

text \<open>The loop of the getter \<^verbatim>\<open>neighbors\<close>, run when \<^verbatim>\<open>_neighbors\<close> is still null.\<close>

definition neighbors_loop :: "'m CrystalLattice \<Rightarrow> 'm SnowflakeCell \<Rightarrow> coord list" where
  "neighbors_loop L c =
     fold (\<lambda>d acc.
             (let nq = cell_q c + HEX_DX ! d; nr = cell_r c + HEX_DY ! d
              in case get L nq nr of None \<Rightarrow> acc | Some n \<Rightarrow> acc @ [(nq, nr)]))
          [0 ..< 6] []"

text \<open>The getter returns the list and the cell with its memo filled.\<close>

definition neighbors :: "'m CrystalLattice \<Rightarrow> 'm SnowflakeCell \<Rightarrow> coord list \<times> 'm SnowflakeCell" where
  "neighbors L c =
     (case neighbors_memo c of
        Some ns \<Rightarrow> (ns, c)
      | None \<Rightarrow> (let ns = neighbors_loop L c in (ns, c\<lparr>neighbors_memo := Some ns\<rparr>)))"

definition updateBoundary :: "'m CrystalLattice \<Rightarrow> 'm SnowflakeCell \<Rightarrow> 'm SnowflakeCell" where
  "updateBoundary L c =
     (if attached c then c\<lparr>boundary := False\<rparr>
      else (let (ns, c1) = neighbors L c
            in c1\<lparr>boundary := list_ex attached (objs L ns)\<rparr>))"

definition diffusionCalc :: "real CrystalLattice \<Rightarrow> real SnowflakeCell \<Rightarrow> real \<times> real SnowflakeCell" where
  "diffusionCalc L c =
     (if attached c then (diffusiveMass c, c)
      else (let c1 = c\<lparr>age := age c + 1\<rparr>;
                (ns, c2) = neighbors L c1;
                next = fold (\<lambda>n acc. acc + (if attached n then diffusiveMass c2
                                              else diffusiveMass n))
                            (objs L ns) (diffusiveMass c2)
            in (next / (real (length ns) + 1), c2)))"

definition stepOne :: "real CrystalLattice \<Rightarrow> real SnowflakeCell \<Rightarrow> real SnowflakeCell" where
  "stepOne L c =
     (let c1 = updateBoundary L c;
          c2 = (if boundary c1
                then (let (ns, c') = neighbors L c1
                      in c'\<lparr>attachedNeighbors := Some (refs_where L attached ns)\<rparr>)
                else c1);
          (v, c3) = diffusionCalc L c2
      in c3\<lparr>next_dm := Some v\<rparr>)"

definition freezingStep :: "real params \<Rightarrow> real SnowflakeCell \<Rightarrow> real SnowflakeCell" where
  "freezingStep P c =
     (if \<not> boundary c then c
      else (let c1 = c\<lparr>boundaryMass := boundaryMass c + (1 - kappa P) * diffusiveMass c\<rparr>;
                c2 = c1\<lparr>crystalMass := crystalMass c1 + kappa P * diffusiveMass c1\<rparr>
            in c2\<lparr>diffusiveMass := 0\<rparr>))"

definition meltingStep :: "real params \<Rightarrow> real SnowflakeCell \<Rightarrow> real SnowflakeCell" where
  "meltingStep P c =
     (if \<not> boundary c then c
      else (let c1 = c\<lparr>diffusiveMass := diffusiveMass c + (mu P * boundaryMass c
                                                              + upsilon P * crystalMass c)\<rparr>;
                c2 = c1\<lparr>boundaryMass := boundaryMass c1 * (1 - mu P)\<rparr>
            in c2\<lparr>crystalMass := crystalMass c2 * (1 - upsilon P)\<rparr>))"

definition noiseStep :: "real params \<Rightarrow> real \<Rightarrow> real SnowflakeCell \<Rightarrow> real SnowflakeCell" where
  "noiseStep P u c =
     (if attached c then c
      else (let c1 = c\<lparr>diffusiveMass := diffusiveMass c + (u - 1 / 2) * sigma P * 2\<rparr>
            in c1\<lparr>diffusiveMass := max 0 (diffusiveMass c1)\<rparr>))"

text \<open>
  \<^verbatim>\<open>attachmentStep\<close> reads \<^verbatim>\<open>this.attachedNeighbors.length\<close>, which throws a TypeError
  while the field is unassigned, and the neighbours' diffusive masses, through the getter.
\<close>

definition attachmentStep ::
  "real params \<Rightarrow> real CrystalLattice \<Rightarrow> real SnowflakeCell \<Rightarrow> error + (bool \<times> real SnowflakeCell)" where
  "attachmentStep P L c =
     (if \<not> boundary c then Inr (False, c)
      else (case attachedNeighbors c of
              None \<Rightarrow> Inl TypeError
            | Some an \<Rightarrow>
                (let attachedCount = length an
                 in if attachedCount \<le> 2
                    then (if boundaryMass c > beta P then Inr (True, c) else Inr (False, c))
                    else if attachedCount = 3
                    then (if boundaryMass c \<ge> 1 then Inr (True, c)
                          else (let (ns, c1) = neighbors L c;
                                    summedDiff = fold (\<lambda>n acc. acc + diffusiveMass n)
                                                      (objs L ns) (diffusiveMass c1)
                                in if summedDiff < theta P \<and> boundaryMass c1 \<ge> alpha P
                                   then Inr (True, c1) else Inr (False, c1)))
                    else Inr (False, c))))"

definition attach :: "real SnowflakeCell \<Rightarrow> real SnowflakeCell" where
  "attach c =
     (let c1 = c\<lparr>crystalMass := crystalMass c + boundaryMass c\<rparr>;
          c2 = c1\<lparr>boundaryMass := 0\<rparr>
      in c2\<lparr>attached := True\<rparr>)"

text \<open>
  \<^verbatim>\<open>stepTwo\<close> commits \<^verbatim>\<open>_next_dm\<close>. While that field is unassigned the mass would
  become \<^verbatim>\<open>undefined\<close>, which no real number stands for: the model stops with
  \<open>UndefinedMass\<close>.
\<close>

definition stepTwo :: "real params \<Rightarrow> real CrystalLattice \<Rightarrow> real SnowflakeCell \<Rightarrow> error + real SnowflakeCell" where
  "stepTwo P L c =
     (case next_dm c of
        None \<Rightarrow> Inl UndefinedMass
      | Some v \<Rightarrow>
          (let c1 = c\<lparr>diffusiveMass := v\<rparr>;
               c2 = c1\<lparr>attachmentFlag := attached c1\<rparr>;
               c3 = freezingStep P c2
           in case attachmentStep P L c3 of
                Inl e \<Rightarrow> Inl e
              | Inr (b, c4) \<Rightarrow> Inr (meltingStep P (c4\<lparr>attachmentFlag := b\<rparr>))))"

definition stepThree :: "real params \<Rightarrow> real \<Rightarrow> real SnowflakeCell \<Rightarrow> real SnowflakeCell" where
  "stepThree P u c =
     (let c1 = (if boundary c \<and> attachmentFlag c then attach c else c)
      in noiseStep P u c1)"

subsection \<open>The lattice\<close>

text \<open>\<^verbatim>\<open>Map.set\<close>: a new key goes to the end, an old key keeps its place.\<close>

definition set_cell :: "coord \<Rightarrow> 'm SnowflakeCell \<Rightarrow> 'm CrystalLattice \<Rightarrow> 'm CrystalLattice" where
  "set_cell k c L = L\<lparr>cells := AList.update k c (cells L)\<rparr>"

definition fill_grid :: "('m::zero) params \<Rightarrow> int \<Rightarrow> 'm CrystalLattice" where
  "fill_grid P n =
     fold (\<lambda>q L. fold (\<lambda>r L. if \<bar>q + r\<bar> > n then L
                              else set_cell (q, r) (new_cell P q r) L)
                       [- n .. n] L)
          [- n .. n] \<lparr>lattice_size = n, cells = []\<rparr>"

text \<open>
  The constructor. \<^verbatim>\<open>this.get(0, 0).attached = true\<close> throws a TypeError when there is
  no cell at the origin.
\<close>

definition constructor :: "('m::zero) params \<Rightarrow> int \<Rightarrow> error + 'm CrystalLattice" where
  "constructor P n =
     (let L = fill_grid P n
      in case get L 0 0 of
           None \<Rightarrow> Inl TypeError
         | Some c \<Rightarrow> Inr (set_cell (0, 0) (c\<lparr>attached := True\<rparr>) L))"

text \<open>
  A loop \<^verbatim>\<open>for (const cell of this.cells.values()) cell.m()\<close>, for a list of keys in the
  order of the visits: each visit runs the method on the object under the key, in the lattice
  as the visits before have left it, and stores the result under the same key.
\<close>

definition visit ::
  "(coord \<Rightarrow> 'm CrystalLattice \<Rightarrow> 'm SnowflakeCell \<Rightarrow> error + 'm SnowflakeCell)
     \<Rightarrow> coord \<Rightarrow> 'm CrystalLattice \<Rightarrow> error + 'm CrystalLattice" where
  "visit m k L =
     (case map_of (cells L) k of
        None \<Rightarrow> Inr L
      | Some c \<Rightarrow> (case m k L c of Inl e \<Rightarrow> Inl e | Inr c' \<Rightarrow> Inr (set_cell k c' L)))"

fun forEach :: "('k \<Rightarrow> 's \<Rightarrow> error + 's) \<Rightarrow> 'k list \<Rightarrow> 's \<Rightarrow> error + 's" where
  "forEach f [] s = Inr s"
| "forEach f (k # ks) s = (case f k s of Inl e \<Rightarrow> Inl e | Inr s' \<Rightarrow> forEach f ks s')"

definition pass1 :: "coord list \<Rightarrow> real CrystalLattice \<Rightarrow> error + real CrystalLattice" where
  "pass1 ks L = forEach (visit (\<lambda>k L c. Inr (stepOne L c))) ks L"

definition pass2 :: "real params \<Rightarrow> coord list \<Rightarrow> real CrystalLattice \<Rightarrow> error + real CrystalLattice" where
  "pass2 P ks L = forEach (visit (\<lambda>k L c. stepTwo P L c)) ks L"

definition pass3 ::
  "real params \<Rightarrow> (coord \<Rightarrow> real) \<Rightarrow> coord list \<Rightarrow> real CrystalLattice \<Rightarrow> error + real CrystalLattice" where
  "pass3 P rnd ks L = forEach (visit (\<lambda>k L c. Inr (stepThree P (rnd k) c))) ks L"

text \<open>
  One step with the three visiting orders given; \<open>step\<close> is the source's, which visits in
  the order of the Map in each pass.
\<close>

definition step_in ::
  "real params \<Rightarrow> (coord \<Rightarrow> real) \<Rightarrow> coord list \<Rightarrow> coord list \<Rightarrow> coord list
     \<Rightarrow> real CrystalLattice \<Rightarrow> error + real CrystalLattice" where
  "step_in P rnd o1 o2 o3 L =
     (case pass1 o1 L of
        Inl e \<Rightarrow> Inl e
      | Inr L1 \<Rightarrow> (case pass2 P o2 L1 of
                    Inl e \<Rightarrow> Inl e
                  | Inr L2 \<Rightarrow> pass3 P rnd o3 L2))"

definition step :: "real params \<Rightarrow> (coord \<Rightarrow> real) \<Rightarrow> real CrystalLattice \<Rightarrow> error + real CrystalLattice" where
  "step P rnd L = step_in P rnd (map fst (cells L)) (map fst (cells L)) (map fst (cells L)) L"

text \<open>Several steps, each with its own random draws.\<close>

fun steps ::
  "real params \<Rightarrow> (coord \<Rightarrow> real) list \<Rightarrow> real CrystalLattice \<Rightarrow> error + real CrystalLattice" where
  "steps P [] L = Inr L"
| "steps P (rnd # rnds) L =
     (case step P rnd L of Inl e \<Rightarrow> Inl e | Inr L' \<Rightarrow> steps P rnds L')"

text \<open>
  The two queries return the selected entries and the lattice as the call leaves it.
\<close>

definition attachedCells ::
  "'m CrystalLattice \<Rightarrow> (coord \<times> 'm SnowflakeCell) list \<times> 'm CrystalLattice" where
  "attachedCells L = (filter (\<lambda>(k, c). attached c) (cells L), L)"

definition boundaryCells ::
  "'m CrystalLattice \<Rightarrow> (coord \<times> 'm SnowflakeCell) list \<times> 'm CrystalLattice" where
  "boundaryCells L = (filter (\<lambda>(k, c). boundary c \<and> \<not> attached c) (cells L), L)"

subsection \<open>Notions used in the statements\<close>

text \<open>The cell stored under a key.\<close>

definition cell_at :: "'m CrystalLattice \<Rightarrow> coord \<Rightarrow> 'm SnowflakeCell option" where
  "cell_at L k = map_of (cells L) k"

text \<open>The neighbours of a cell: the list its getter \<^verbatim>\<open>neighbors\<close> returns.\<close>

definition nbrs :: "'m CrystalLattice \<Rightarrow> 'm SnowflakeCell \<Rightarrow> coord list" where
  "nbrs L c = fst (neighbors L c)"

text \<open>
  What a neighbour adds to the diffusion average of a cell whose diffusive mass is \<open>own\<close>,
  and the average itself over a list of neighbours.
\<close>

definition contribution :: "real \<Rightarrow> real SnowflakeCell \<Rightarrow> real" where
  "contribution own n = (if attached n then own else diffusiveMass n)"

definition diffusion_mean :: "real CrystalLattice \<Rightarrow> real \<Rightarrow> coord list \<Rightarrow> real" where
  "diffusion_mean L own ns =
     (own + sum_list (map (contribution own) (objs L ns))) / (real (length ns) + 1)"

text \<open>
  Two lattices hold the same cells and agree on what Pass 1 reads of a cell from outside:
  its \<^verbatim>\<open>attached\<close> flag and its diffusive mass.
\<close>

definition same_view :: "real CrystalLattice \<Rightarrow> real CrystalLattice \<Rightarrow> bool" where
  "same_view L L' \<longleftrightarrow>
     (\<forall>k. rel_option (\<lambda>c c'. attached c' = attached c \<and> diffusiveMass c' = diffusiveMass c)
            (cell_at L k) (cell_at L' k))"

text \<open>
  A cell on which \<^verbatim>\<open>stepTwo\<close> raises no error, and what \<^verbatim>\<open>stepTwo\<close> makes of the
  masses of a cell: the commit, freezing and melting. \<open>pass2_rel\<close> relates a cell to its
  state after \<^verbatim>\<open>stepTwo\<close>, the attachment flag apart.
\<close>

definition ready :: "'m SnowflakeCell \<Rightarrow> bool" where
  "ready c \<longleftrightarrow>
     next_dm c \<noteq> None
     \<and> (boundary c \<longrightarrow> attachedNeighbors c \<noteq> None \<and> neighbors_memo c \<noteq> None)"

definition committed :: "real params \<Rightarrow> real SnowflakeCell \<Rightarrow> real SnowflakeCell" where
  "committed P c =
     meltingStep P (freezingStep P (c\<lparr>diffusiveMass := (case next_dm c of None \<Rightarrow> diffusiveMass c | Some v \<Rightarrow> v)\<rparr>))"

definition pass2_rel :: "real params \<Rightarrow> real SnowflakeCell \<Rightarrow> real SnowflakeCell \<Rightarrow> bool" where
  "pass2_rel P c c' \<longleftrightarrow>
     diffusiveMass c' = diffusiveMass (committed P c)
     \<and> boundaryMass c' = boundaryMass (committed P c)
     \<and> crystalMass c' = crystalMass (committed P c)
     \<and> cell_q c' = cell_q c \<and> cell_r c' = cell_r c
     \<and> attached c' = attached c \<and> boundary c' = boundary c \<and> age c' = age c
     \<and> attachedNeighbors c' = attachedNeighbors c \<and> next_dm c' = next_dm c
     \<and> neighbors_memo c' = neighbors_memo c"

text \<open>The diffusive mass summed over a cell and its neighbours, as the lattice holds it.\<close>

definition summed_diff :: "real CrystalLattice \<Rightarrow> real SnowflakeCell \<Rightarrow> real" where
  "summed_diff L c = diffusiveMass c + sum_list (map diffusiveMass (objs L (nbrs L c)))"

definition all_ready :: "'m CrystalLattice \<Rightarrow> bool" where
  "all_ready L \<longleftrightarrow> (\<forall>k c. cell_at L k = Some c \<longrightarrow> ready c)"

text \<open>
  The cells that exist among the six coordinates adjacent to a key, in the order of the
  offsets, and the lattices in which every cell carries the coordinates of its key and a memo
  that, once filled, holds exactly those cells. Every lattice that the constructor builds and
  that steps reach is of this kind, and there the neighbours of a cell are the adjacent cells.
\<close>

definition adjacent :: "'m CrystalLattice \<Rightarrow> coord \<Rightarrow> coord list" where
  "adjacent L k =
     filter (\<lambda>j. cell_at L j \<noteq> None)
            (map (\<lambda>d. (fst k + HEX_DX ! d, snd k + HEX_DY ! d)) [0 ..< 6])"

definition well_formed :: "'m CrystalLattice \<Rightarrow> bool" where
  "well_formed L \<longleftrightarrow>
     distinct (map fst (cells L))
     \<and> (\<forall>k c. cell_at L k = Some c \<longrightarrow>
            cell_q c = fst k \<and> cell_r c = snd k
            \<and> (\<forall>ns. neighbors_memo c = Some ns \<longrightarrow> ns = adjacent L k))"

text \<open>
  Boundary consistency as the specification words it: a cell's \<^verbatim>\<open>boundary\<close> flag is set
  exactly when the cell is unattached and one of its neighbours is attached, all read in the
  same lattice.
\<close>

definition boundary_consistent :: "real CrystalLattice \<Rightarrow> bool" where
  "boundary_consistent L \<longleftrightarrow>
     list_all (\<lambda>(k, c). boundary c = (\<not> attached c \<and> list_ex attached (objs L (nbrs L c))))
              (cells L)"

text \<open>
  The attachment rule as the specification words it, for \<open>k\<close> attached neighbours, boundary
  mass \<open>bm\<close> and summed diffusive mass \<open>sd\<close>.
\<close>

definition attach_rule :: "real params \<Rightarrow> nat \<Rightarrow> real \<Rightarrow> real \<Rightarrow> bool" where
  "attach_rule P k bm sd =
     (if k = 1 \<or> k = 2 then bm > beta P
      else if k = 3 then bm \<ge> 1 \<or> (bm \<ge> alpha P \<and> sd < theta P)
      else False)"

text \<open>
  The lattice in which Pass 2 finds a cell: Pass 1 has run over \<open>o1\<close> and Pass 2 has
  visited the cells \<open>ks\<close>.
\<close>

definition pass2_state ::
  "real params \<Rightarrow> coord list \<Rightarrow> coord list \<Rightarrow> real CrystalLattice \<Rightarrow> error + real CrystalLattice" where
  "pass2_state P o1 ks L =
     (case pass1 o1 L of Inl e \<Rightarrow> Inl e | Inr L1 \<Rightarrow> pass2 P ks L1)"

text \<open>The \<^verbatim>\<open>attached\<close> flag of a cell in the outcome of a step.\<close>

definition attached_after :: "error + real CrystalLattice \<Rightarrow> coord \<Rightarrow> bool option" where
  "attached_after R k =
     (case R of Inl e \<Rightarrow> None | Inr L \<Rightarrow> map_option attached (cell_at L k))"

subsection \<open>A run of the program\<close>

text \<open>
  A parameter set, and the draws of \<^verbatim>\<open>Math.random()\<close> in the noise pass of a first step:
  \<open>3/4\<close> for four of the six neighbours of the origin, \<open>1/2\<close> (no noise) for every other
  cell.
\<close>

definition tuned_params :: "real params" where
  "tuned_params =
     \<lparr>beta = 17 / 32, theta = 3 / 2, alpha = 1 / 8, kappa = 1 / 4, mu = 1 / 4,
      upsilon = 1 / 4, sigma = 1 / 4, gamma = 1 / 2\<rparr>"

definition first_draws :: "coord \<Rightarrow> real" where
  "first_draws k = (if k \<in> set [(0, 1), (1, - 1), (0, - 1), (- 1, 1)] then 3 / 4 else 1 / 2)"

text \<open>
  The lattice that \<^verbatim>\<open>new CrystalLattice(2)\<close> and two steps reach with these parameters,
  the first step with the draws above and the second without noise, written out field by
  field. The four cells that drew \<open>3/4\<close> have attached in the second step; \<open>(- 1, 0)\<close>
  and \<open>(1, 0)\<close> have not, and hold the same masses. The lattice is symmetric under the
  point reflection \<open>(q, r) \<mapsto> (- q, - r)\<close>.
\<close>

definition grown_cell ::
  "int \<Rightarrow> int \<Rightarrow> real \<Rightarrow> real \<Rightarrow> real \<Rightarrow> bool \<Rightarrow> bool \<Rightarrow> int \<Rightarrow> coord list option \<Rightarrow> bool
     \<Rightarrow> coord list option \<Rightarrow> real option \<Rightarrow> coord \<times> real SnowflakeCell" where
  "grown_cell q r dm bm cm att bd a memo flag an nx =
     ((q, r),
      \<lparr>cell_q = q, cell_r = r, diffusiveMass = dm, boundaryMass = bm, crystalMass = cm,
       attached = att, boundary = bd, age = a, neighbors_memo = memo,
       attachmentFlag = flag, attachedNeighbors = an, next_dm = nx\<rparr>)"

definition grown_lattice :: "real CrystalLattice" where
  "grown_lattice =
     \<lparr>lattice_size = 2,
      cells =
        [(grown_cell (- 2) 0 (13 / 32) 0 0 False False 2
           (Some [(- 1, 0), (- 2, 1), (- 1, - 1)]) False None (Some (13 / 32))),
         (grown_cell (- 2) 1 (3 / 8) 0 0 False False 2
           (Some [(- 1, 1), (- 2, 2), (- 2, 0), (- 1, 0)]) False None (Some (3 / 8))),
         (grown_cell (- 2) 2 (7 / 16) 0 0 False False 2
           (Some [(- 1, 2), (- 2, 1), (- 1, 1)]) False None (Some (7 / 16))),
         (grown_cell (- 1) (- 1) (3 / 8) 0 0 False False 2
           (Some [(0, - 1), (- 1, 0), (- 2, 0), (0, - 2)]) False None (Some (3 / 8))),
         (grown_cell (- 1) 0 (39 / 224) (351 / 896) (117 / 896) False True 2
           (Some [(0, 0), (- 1, 1), (- 2, 1), (- 2, 0), (- 1, - 1), (0, - 1)]) False (Some [(0, 0)]) (Some (9 / 28))),
         (grown_cell (- 1) 1 (5 / 28) 0 (15 / 28) True True 2
           (Some [(0, 1), (- 1, 2), (- 2, 2), (- 2, 1), (- 1, 0), (0, 0)]) True (Some [(0, 0)]) (Some (19 / 56))),
         (grown_cell (- 1) 2 (2 / 5) 0 0 False False 2
           (Some [(0, 2), (- 2, 2), (- 1, 1), (0, 1)]) False None (Some (2 / 5))),
         (grown_cell 0 (- 2) (7 / 16) 0 0 False False 2
           (Some [(1, - 2), (0, - 1), (- 1, - 1)]) False None (Some (7 / 16))),
         (grown_cell 0 (- 1) (5 / 28) 0 (15 / 28) True True 2
           (Some [(1, - 1), (0, 0), (- 1, 0), (- 1, - 1), (0, - 2), (1, - 2)]) True (Some [(0, 0)]) (Some (19 / 56))),
         (grown_cell 0 0 (1 / 2) 0 0 True False 0
           None False None (Some (1 / 2))),
         (grown_cell 0 1 (5 / 28) 0 (15 / 28) True True 2
           (Some [(1, 1), (0, 2), (- 1, 2), (- 1, 1), (0, 0), (1, 0)]) True (Some [(0, 0)]) (Some (19 / 56))),
         (grown_cell 0 2 (7 / 16) 0 0 False False 2
           (Some [(- 1, 2), (0, 1), (1, 1)]) False None (Some (7 / 16))),
         (grown_cell 1 (- 2) (2 / 5) 0 0 False False 2
           (Some [(2, - 2), (1, - 1), (0, - 1), (0, - 2)]) False None (Some (2 / 5))),
         (grown_cell 1 (- 1) (5 / 28) 0 (15 / 28) True True 2
           (Some [(2, - 1), (1, 0), (0, 0), (0, - 1), (1, - 2), (2, - 2)]) True (Some [(0, 0)]) (Some (19 / 56))),
         (grown_cell 1 0 (39 / 224) (351 / 896) (117 / 896) False True 2
           (Some [(2, 0), (1, 1), (0, 1), (0, 0), (1, - 1), (2, - 1)]) False (Some [(0, 0)]) (Some (9 / 28))),
         (grown_cell 1 1 (3 / 8) 0 0 False False 2
           (Some [(0, 2), (0, 1), (1, 0), (2, 0)]) False None (Some (3 / 8))),
         (grown_cell 2 (- 2) (7 / 16) 0 0 False False 2
           (Some [(2, - 1), (1, - 1), (1, - 2)]) False None (Some (7 / 16))),
         (grown_cell 2 (- 1) (3 / 8) 0 0 False False 2
           (Some [(2, 0), (1, 0), (1, - 1), (2, - 2)]) False None (Some (3 / 8))),
         (grown_cell 2 0 (13 / 32) 0 0 False False 2
           (Some [(1, 1), (1, 0), (2, - 1)]) False None (Some (13 / 32)))]\<rparr>"

definition grown_keys :: "coord list" where
  "grown_keys = map fst (cells grown_lattice)"

text \<open>No noise: every draw of \<^verbatim>\<open>Math.random()\<close> is \<open>1/2\<close>.\<close>

definition no_noise :: "coord \<Rightarrow> real" where
  "no_noise k = 1 / 2"

subsection \<open>JavaScript numbers\<close>

text \<open>
  The values of the type Number: the finite doubles, the two infinities and NaN. A finite
  double is held as the rational it denotes; the two zeros are one value, which the
  simulation cannot tell apart (it never divides by a mass and never inspects a sign).
  \<open>fl\<close> rounds a rational to the nearest double, ties to even: the spacing of the
  doubles around \<open>x\<close> is \<open>ulp x\<close>, which is \<open>2\<^sup>e\<^sup>-\<^sup>5\<^sup>2\<close> for
  \<open>2\<^sup>e \<le> |x| < 2\<^sup>e\<^sup>+\<^sup>1\<close> and \<open>2\<^sup>-\<^sup>1\<^sup>0\<^sup>7\<^sup>4\<close> below \<open>2\<^sup>-\<^sup>1\<^sup>0\<^sup>2\<^sup>2\<close>, and a
  magnitude of at least \<open>2\<^sup>1\<^sup>0\<^sup>2\<^sup>4 - 2\<^sup>9\<^sup>7\<^sup>0\<close>, half a spacing above the largest double,
  rounds to an infinity.
\<close>

datatype number = Fin rat | PInf | NInf | NaN

definition round_even :: "rat \<Rightarrow> int" where
  "round_even x =
     (let n = \<lfloor>x\<rfloor>; d = x - of_int n
      in if d < 1 / 2 then n else if 1 / 2 < d then n + 1 else if even n then n else n + 1)"

definition expo :: "rat \<Rightarrow> int" where
  "expo x =
     (if 1 \<le> \<bar>x\<bar> then bitlen \<lfloor>\<bar>x\<bar>\<rfloor> - 1 else - bitlen (\<lceil>1 / \<bar>x\<bar>\<rceil> - 1))"

definition ulp :: "rat \<Rightarrow> rat" where
  "ulp x = 2 powi (max (expo x) (- 1022) - 52)"

definition overflow_threshold :: rat where
  "overflow_threshold =
     179769313486231580793728971405303415079934132710037826936173778980444968292764750946649017977587207096330286416692887910946555547851940402630657488671505820681908902000708383676273854845817711531764475730270069855571366959622842914819860834936475292719074168444365510704342711559699508093042880177904174497792"

definition fl :: "rat \<Rightarrow> number" where
  "fl x =
     (if x = 0 then Fin 0
      else if overflow_threshold \<le> \<bar>x\<bar> then (if 0 < x then PInf else NInf)
      else Fin (of_int (round_even (x / ulp x)) * ulp x))"

text \<open>
  The arithmetic operators and comparisons of JavaScript on these values, under the usual
  symbols. A comparison with NaN is false.
\<close>

instantiation number :: "{zero, one, plus, uminus, minus, times, inverse, ord}"
begin

definition zero_number :: number where
  "zero_number = Fin 0"

definition one_number :: number where
  "one_number = Fin 1"

fun plus_number :: "number \<Rightarrow> number \<Rightarrow> number" where
  "plus_number NaN b = NaN"
| "plus_number a NaN = NaN"
| "plus_number (Fin x) (Fin y) = fl (x + y)"
| "plus_number PInf NInf = NaN"
| "plus_number NInf PInf = NaN"
| "plus_number PInf b = PInf"
| "plus_number a PInf = PInf"
| "plus_number NInf b = NInf"
| "plus_number a NInf = NInf"

fun uminus_number :: "number \<Rightarrow> number" where
  "uminus_number (Fin x) = Fin (- x)"
| "uminus_number PInf = NInf"
| "uminus_number NInf = PInf"
| "uminus_number NaN = NaN"

definition minus_number :: "number \<Rightarrow> number \<Rightarrow> number" where
  "minus_number a b = a + (- b)"

fun times_number :: "number \<Rightarrow> number \<Rightarrow> number" where
  "times_number NaN b = NaN"
| "times_number a NaN = NaN"
| "times_number (Fin x) (Fin y) = fl (x * y)"
| "times_number (Fin x) PInf = (if x = 0 then NaN else if 0 < x then PInf else NInf)"
| "times_number (Fin x) NInf = (if x = 0 then NaN else if 0 < x then NInf else PInf)"
| "times_number PInf (Fin y) = (if y = 0 then NaN else if 0 < y then PInf else NInf)"
| "times_number NInf (Fin y) = (if y = 0 then NaN else if 0 < y then NInf else PInf)"
| "times_number PInf PInf = PInf"
| "times_number PInf NInf = NInf"
| "times_number NInf PInf = NInf"
| "times_number NInf NInf = PInf"

fun divide_number :: "number \<Rightarrow> number \<Rightarrow> number" where
  "divide_number NaN b = NaN"
| "divide_number a NaN = NaN"
| "divide_number (Fin x) (Fin y) =
     (if y = 0 then (if x = 0 then NaN else if 0 < x then PInf else NInf) else fl (x / y))"
| "divide_number (Fin x) b = Fin 0"
| "divide_number PInf (Fin y) = (if 0 \<le> y then PInf else NInf)"
| "divide_number NInf (Fin y) = (if 0 \<le> y then NInf else PInf)"
| "divide_number a b = NaN"

definition inverse_number :: "number \<Rightarrow> number" where
  "inverse_number a = Fin 1 div a"

fun less_eq_number :: "number \<Rightarrow> number \<Rightarrow> bool" where
  "less_eq_number NaN b = False"
| "less_eq_number a NaN = False"
| "less_eq_number (Fin x) (Fin y) = (x \<le> y)"
| "less_eq_number NInf b = True"
| "less_eq_number a PInf = True"
| "less_eq_number a b = False"

fun less_number :: "number \<Rightarrow> number \<Rightarrow> bool" where
  "less_number NaN b = False"
| "less_number a NaN = False"
| "less_number (Fin x) (Fin y) = (x < y)"
| "less_number PInf b = False"
| "less_number a NInf = False"
| "less_number a b = True"

instance ..

end

text \<open>\<^verbatim>\<open>Math.max\<close> of two numbers: NaN when either is NaN.\<close>

definition Math_max :: "number \<Rightarrow> number \<Rightarrow> number" where
  "Math_max a b = (if a = NaN \<or> b = NaN then NaN else if a \<le> b then b else a)"

subsection \<open>The simulation in JavaScript numbers\<close>

text \<open>
  The methods that compute with masses, again, now on the numbers of the language: the same
  operations in the same order as the source, each rounding its result. Their names carry
  the suffix \<open>_d\<close>; the methods that touch no mass (\<^const>\<open>neighbors\<close>,
  \<^const>\<open>updateBoundary\<close>, the constructor, the visits) are those above.
  \<^verbatim>\<open>this.neighbors.length\<close> is a whole number of cells, held exactly.
\<close>

definition default_params_d :: "number params" where
  "default_params_d =
     \<lparr>beta = fl (13 / 10), theta = fl (25 / 1000), alpha = fl (8 / 100), kappa = fl (3 / 1000),
      mu = fl (7 / 100), upsilon = fl (5 / 100000), sigma = fl (1 / 100000), gamma = fl (1 / 2)\<rparr>"

definition diffusionCalc_d ::
  "number CrystalLattice \<Rightarrow> number SnowflakeCell \<Rightarrow> number \<times> number SnowflakeCell" where
  "diffusionCalc_d L c =
     (if attached c then (diffusiveMass c, c)
      else (let c1 = c\<lparr>age := age c + 1\<rparr>;
                (ns, c2) = neighbors L c1;
                next = fold (\<lambda>n acc. acc + (if attached n then diffusiveMass c2
                                              else diffusiveMass n))
                            (objs L ns) (diffusiveMass c2)
            in (next / (Fin (of_nat (length ns)) + 1), c2)))"

definition stepOne_d :: "number CrystalLattice \<Rightarrow> number SnowflakeCell \<Rightarrow> number SnowflakeCell" where
  "stepOne_d L c =
     (let c1 = updateBoundary L c;
          c2 = (if boundary c1
                then (let (ns, c') = neighbors L c1
                      in c'\<lparr>attachedNeighbors := Some (refs_where L attached ns)\<rparr>)
                else c1);
          (v, c3) = diffusionCalc_d L c2
      in c3\<lparr>next_dm := Some v\<rparr>)"

definition freezingStep_d :: "number params \<Rightarrow> number SnowflakeCell \<Rightarrow> number SnowflakeCell" where
  "freezingStep_d P c =
     (if \<not> boundary c then c
      else (let c1 = c\<lparr>boundaryMass := boundaryMass c + (1 - kappa P) * diffusiveMass c\<rparr>;
                c2 = c1\<lparr>crystalMass := crystalMass c1 + kappa P * diffusiveMass c1\<rparr>
            in c2\<lparr>diffusiveMass := 0\<rparr>))"

definition meltingStep_d :: "number params \<Rightarrow> number SnowflakeCell \<Rightarrow> number SnowflakeCell" where
  "meltingStep_d P c =
     (if \<not> boundary c then c
      else (let c1 = c\<lparr>diffusiveMass := diffusiveMass c + (mu P * boundaryMass c
                                                              + upsilon P * crystalMass c)\<rparr>;
                c2 = c1\<lparr>boundaryMass := boundaryMass c1 * (1 - mu P)\<rparr>
            in c2\<lparr>crystalMass := crystalMass c2 * (1 - upsilon P)\<rparr>))"

definition noiseStep_d ::
  "number params \<Rightarrow> number \<Rightarrow> number SnowflakeCell \<Rightarrow> number SnowflakeCell" where
  "noiseStep_d P u c =
     (if attached c then c
      else (let c1 = c\<lparr>diffusiveMass :=
                         diffusiveMass c + (u - Fin (1 / 2)) * sigma P * Fin 2\<rparr>
            in c1\<lparr>diffusiveMass := Math_max 0 (diffusiveMass c1)\<rparr>))"

definition attachmentStep_d ::
  "number params \<Rightarrow> number CrystalLattice \<Rightarrow> number SnowflakeCell
     \<Rightarrow> error + (bool \<times> number SnowflakeCell)" where
  "attachmentStep_d P L c =
     (if \<not> boundary c then Inr (False, c)
      else (case attachedNeighbors c of
              None \<Rightarrow> Inl TypeError
            | Some an \<Rightarrow>
                (let attachedCount = length an
                 in if attachedCount \<le> 2
                    then (if boundaryMass c > beta P then Inr (True, c) else Inr (False, c))
                    else if attachedCount = 3
                    then (if boundaryMass c \<ge> 1 then Inr (True, c)
                          else (let (ns, c1) = neighbors L c;
                                    summedDiff = fold (\<lambda>n acc. acc + diffusiveMass n)
                                                      (objs L ns) (diffusiveMass c1)
                                in if summedDiff < theta P \<and> boundaryMass c1 \<ge> alpha P
                                   then Inr (True, c1) else Inr (False, c1)))
                    else Inr (False, c))))"

definition attach_d :: "number SnowflakeCell \<Rightarrow> number SnowflakeCell" where
  "attach_d c =
     (let c1 = c\<lparr>crystalMass := crystalMass c + boundaryMass c\<rparr>;
          c2 = c1\<lparr>boundaryMass := 0\<rparr>
      in c2\<lparr>attached := True\<rparr>)"

definition stepTwo_d ::
  "number params \<Rightarrow> number CrystalLattice \<Rightarrow> number SnowflakeCell
     \<Rightarrow> error + number SnowflakeCell" where
  "stepTwo_d P L c =
     (case next_dm c of
        None \<Rightarrow> Inl UndefinedMass
      | Some v \<Rightarrow>
          (let c1 = c\<lparr>diffusiveMass := v\<rparr>;
               c2 = c1\<lparr>attachmentFlag := attached c1\<rparr>;
               c3 = freezingStep_d P c2
           in case attachmentStep_d P L c3 of
                Inl e \<Rightarrow> Inl e
              | Inr (b, c4) \<Rightarrow> Inr (meltingStep_d P (c4\<lparr>attachmentFlag := b\<rparr>))))"

definition stepThree_d ::
  "number params \<Rightarrow> number \<Rightarrow> number SnowflakeCell \<Rightarrow> number SnowflakeCell" where
  "stepThree_d P u c =
     (let c1 = (if boundary c \<and> attachmentFlag c then attach_d c else c)
      in noiseStep_d P u c1)"

definition pass1_d ::
  "coord list \<Rightarrow> number CrystalLattice \<Rightarrow> error + number CrystalLattice" where
  "pass1_d ks L = forEach (visit (\<lambda>k L c. Inr (stepOne_d L c))) ks L"

definition pass2_d ::
  "number params \<Rightarrow> coord list \<Rightarrow> number CrystalLattice \<Rightarrow> error + number CrystalLattice" where
  "pass2_d P ks L = forEach (visit (\<lambda>k L c. stepTwo_d P L c)) ks L"

definition pass3_d ::
  "number params \<Rightarrow> (coord \<Rightarrow> number) \<Rightarrow> coord list \<Rightarrow> number CrystalLattice
     \<Rightarrow> error + number CrystalLattice" where
  "pass3_d P rnd ks L = forEach (visit (\<lambda>k L c. Inr (stepThree_d P (rnd k) c))) ks L"

definition step_d ::
  "number params \<Rightarrow> (coord \<Rightarrow> number) \<Rightarrow> number CrystalLattice
     \<Rightarrow> error + number CrystalLattice" where
  "step_d P rnd L =
     (case pass1_d (map fst (cells L)) L of
        Inl e \<Rightarrow> Inl e
      | Inr L1 \<Rightarrow> (case pass2_d P (map fst (cells L1)) L1 of
                    Inl e \<Rightarrow> Inl e
                  | Inr L2 \<Rightarrow> pass3_d P rnd (map fst (cells L2)) L2))"

fun steps_d ::
  "number params \<Rightarrow> (coord \<Rightarrow> number) list \<Rightarrow> number CrystalLattice
     \<Rightarrow> error + number CrystalLattice" where
  "steps_d P [] L = Inr L"
| "steps_d P (rnd # rnds) L =
     (case step_d P rnd L of Inl e \<Rightarrow> Inl e | Inr L' \<Rightarrow> steps_d P rnds L')"

subsection \<open>Notions used in the statements about masses\<close>

text \<open>
  The preconditions on the parameters, as comparisons of the language (so that NaN meets
  none of them), and a mass that is not negative: NaN, or at least zero, possibly
  \<^verbatim>\<open>Infinity\<close>.
\<close>

definition params_ok_d :: "number params \<Rightarrow> bool" where
  "params_ok_d P \<longleftrightarrow>
     0 \<le> kappa P \<and> kappa P \<le> 1 \<and> 0 \<le> mu P \<and> mu P \<le> 1
     \<and> 0 \<le> upsilon P \<and> upsilon P \<le> 1 \<and> 0 \<le> gamma P \<and> 0 \<le> sigma P"

definition not_negative :: "number \<Rightarrow> bool" where
  "not_negative x \<longleftrightarrow> x = NaN \<or> 0 \<le> x"

definition masses_not_negative :: "number SnowflakeCell \<Rightarrow> bool" where
  "masses_not_negative c \<longleftrightarrow>
     not_negative (diffusiveMass c) \<and> not_negative (boundaryMass c)
     \<and> not_negative (crystalMass c)"

definition all_not_negative :: "number CrystalLattice \<Rightarrow> bool" where
  "all_not_negative L \<longleftrightarrow> list_all (\<lambda>(k, c). masses_not_negative c) (cells L)"

text \<open>
  The same of every cell under a key, and the cells as Pass 1 leaves them: ready for
  \<^verbatim>\<open>stepTwo\<close>, with masses and a candidate \<^verbatim>\<open>_next_dm\<close> that are not negative.
\<close>

definition cells_not_negative :: "number CrystalLattice \<Rightarrow> bool" where
  "cells_not_negative L \<longleftrightarrow> (\<forall>k c. cell_at L k = Some c \<longrightarrow> masses_not_negative c)"

definition prepared :: "number SnowflakeCell \<Rightarrow> bool" where
  "prepared c \<longleftrightarrow>
     ready c \<and> masses_not_negative c \<and> (\<forall>v. next_dm c = Some v \<longrightarrow> not_negative v)"

definition cells_prepared :: "number CrystalLattice \<Rightarrow> bool" where
  "cells_prepared L \<longleftrightarrow> (\<forall>k c. cell_at L k = Some c \<longrightarrow> prepared c)"

text \<open>
  The total mass of a cell: the sum \<^verbatim>\<open>diffusiveMass + boundaryMass + crystalMass\<close> as
  the language evaluates it, and the exact sum of the three stored values when all are
  finite.
\<close>

definition total_mass_d :: "number SnowflakeCell \<Rightarrow> number" where
  "total_mass_d c = diffusiveMass c + boundaryMass c + crystalMass c"

definition exact_total :: "number SnowflakeCell \<Rightarrow> rat option" where
  "exact_total c =
     (case diffusiveMass c of
        Fin d \<Rightarrow> (case boundaryMass c of
                    Fin b \<Rightarrow> (case crystalMass c of Fin m \<Rightarrow> Some (d + b + m) | _ \<Rightarrow> None)
                  | _ \<Rightarrow> None)
      | _ \<Rightarrow> None)"

text \<open>
  Two exact totals that differ by at most \<open>2\<^sup>-\<^sup>4\<^sup>8\<close> of the first plus
  \<open>2\<^sup>-\<^sup>1\<^sup>0\<^sup>7\<^sup>0\<close>: a few roundings of a double
  (a rounding is off by at most \<open>2\<^sup>-\<^sup>5\<^sup>3\<close> of the value or by \<open>tiny\<close>,
  half the smallest double). A cell is \<open>moderate\<close> when its masses are
  finite and at least zero and their total is at most \<open>2\<^sup>1\<^sup>0\<^sup>0\<^sup>0\<close>, far from overflow.
  \<open>rates_ok\<close> are the preconditions on the three rates.
\<close>

definition tiny :: rat where
  "tiny = 1 / 2 ^ 1075"

definition close_totals :: "rat option \<Rightarrow> rat option \<Rightarrow> bool" where
  "close_totals s t =
     (case s of
        None \<Rightarrow> False
      | Some x \<Rightarrow> (case t of None \<Rightarrow> False
                   | Some y \<Rightarrow> \<bar>y - x\<bar> \<le> x / 2 ^ 48 + 1 / 2 ^ 1070))"

definition moderate :: "number SnowflakeCell \<Rightarrow> bool" where
  "moderate c \<longleftrightarrow>
     0 \<le> diffusiveMass c \<and> 0 \<le> boundaryMass c \<and> 0 \<le> crystalMass c
     \<and> (case exact_total c of None \<Rightarrow> False | Some t \<Rightarrow> t \<le> 2 ^ 1000)"

definition rates_ok :: "number params \<Rightarrow> bool" where
  "rates_ok P \<longleftrightarrow>
     0 \<le> kappa P \<and> kappa P \<le> 1 \<and> 0 \<le> mu P \<and> mu P \<le> 1
     \<and> 0 \<le> upsilon P \<and> upsilon P \<le> 1"

subsection \<open>Cells and parameters of the examples in doubles\<close>

text \<open>
  A boundary cell with given masses. A parameter set within the preconditions: the defaults
  with \<^verbatim>\<open>kappa = 0\<close> and \<^verbatim>\<open>gamma = 1e308\<close>, the double that this literal denotes
  written out. The draws without noise.
\<close>

definition boundary_cell :: "number \<Rightarrow> number \<Rightarrow> number \<Rightarrow> number SnowflakeCell" where
  "boundary_cell d b m =
     (new_cell default_params_d 1 0)
       \<lparr>diffusiveMass := d, boundaryMass := b, crystalMass := m, boundary := True\<rparr>"

definition humid_params :: "number params" where
  "humid_params =
     default_params_d
       \<lparr>kappa := 0,
        gamma := Fin 100000000000000001097906362944045541740492309677311846336810682903157585404911491537163328978494688899061249669721172515611590283743140088328307009198146046031271664502933027185697489699588559043338384466165001178426897626212945177628091195786707458122783970171784415105291802893207873272974885715430223118336\<rparr>"

definition no_noise_d :: "coord \<Rightarrow> number" where
  "no_noise_d k = Fin (1 / 2)"

section \<open>Properties of a single cell\<close>

lemma neighbors_eq: "neighbors L c = (nbrs L c, c\<lparr>neighbors_memo := Some (nbrs L c)\<rparr>)"
  by (cases "neighbors_memo c") (simp_all add: neighbors_def nbrs_def Let_def)

lemma nbrs_memo [simp]: "nbrs L (c\<lparr>neighbors_memo := Some ns\<rparr>) = ns"
  by (simp add: nbrs_def neighbors_def)

lemma nbrs_upd [simp]:
  "nbrs L (c\<lparr>boundary := b\<rparr>) = nbrs L c"
  "nbrs L (c\<lparr>age := a\<rparr>) = nbrs L c"
  "nbrs L (c\<lparr>attachedNeighbors := an\<rparr>) = nbrs L c"
  "nbrs L (c\<lparr>next_dm := nd\<rparr>) = nbrs L c"
  "nbrs L (c\<lparr>diffusiveMass := x\<rparr>) = nbrs L c"
  "nbrs L (c\<lparr>boundaryMass := x\<rparr>) = nbrs L c"
  "nbrs L (c\<lparr>crystalMass := x\<rparr>) = nbrs L c"
  "nbrs L (c\<lparr>attachmentFlag := b\<rparr>) = nbrs L c"
  "nbrs L (c\<lparr>attached := b\<rparr>) = nbrs L c"
  by (simp_all add: nbrs_def neighbors_def neighbors_loop_def Let_def split: option.splits)

lemma fold_add_sum: "fold (\<lambda>n acc. acc + h n) xs (a::real) = a + sum_list (map h xs)"
  by (induction xs arbitrary: a) simp_all

lemma updateBoundary_eq:
  "updateBoundary L c =
     (if attached c then c\<lparr>boundary := False\<rparr>
      else c\<lparr>neighbors_memo := Some (nbrs L c),
             boundary := list_ex attached (objs L (nbrs L c))\<rparr>)"
  by (simp add: updateBoundary_def neighbors_eq)

lemma diffusionCalc_eq:
  "diffusionCalc L c =
     (if attached c then (diffusiveMass c, c)
      else (diffusion_mean L (diffusiveMass c) (nbrs L c),
            c\<lparr>age := age c + 1, neighbors_memo := Some (nbrs L c)\<rparr>))"
  by (simp add: diffusionCalc_def neighbors_eq Let_def fold_add_sum diffusion_mean_def
        contribution_def [abs_def] cong: if_cong)

lemma stepOne_eq:
  "stepOne L c =
     (if attached c then c\<lparr>boundary := False, next_dm := Some (diffusiveMass c)\<rparr>
      else c\<lparr>neighbors_memo := Some (nbrs L c),
             boundary := list_ex attached (objs L (nbrs L c)),
             attachedNeighbors :=
               (if list_ex attached (objs L (nbrs L c))
                then Some (refs_where L attached (nbrs L c)) else attachedNeighbors c),
             age := age c + 1,
             next_dm := Some (diffusion_mean L (diffusiveMass c) (nbrs L c))\<rparr>)"
  by (simp add: stepOne_def updateBoundary_eq diffusionCalc_eq neighbors_eq Let_def)

text \<open>
  C5. In Pass 1 the candidate next diffusive mass of a cell that is not attached is
  \<open>(own_dm + \<Sum> contribution) / (num_neighbors + 1)\<close>, the sum running over the neighbours
  that exist, an attached neighbour contributing the cell's own diffusive mass and any other
  neighbour its own; for an attached cell the candidate is the old diffusive mass, so that
  committing it in Pass 2 leaves the diffusive mass unchanged. This is what
  \<^verbatim>\<open>diffusionCalc\<close> returns and what \<^verbatim>\<open>stepOne\<close> stores in \<^verbatim>\<open>_next_dm\<close>, and
  \<^verbatim>\<open>stepOne\<close> itself does not touch the diffusive mass.
\<close>

theorem diffusionCalc_local_average:
  "fst (diffusionCalc L c) =
     (if attached c then diffusiveMass c
      else (diffusiveMass c
            + sum_list (map (\<lambda>n. if attached n then diffusiveMass c else diffusiveMass n)
                            (objs L (nbrs L c))))
           / (real (length (nbrs L c)) + 1))
   \<and> next_dm (stepOne L c) = Some (fst (diffusionCalc L c))
   \<and> diffusiveMass (stepOne L c) = diffusiveMass c"
  by (simp add: stepOne_eq diffusionCalc_eq diffusion_mean_def contribution_def [abs_def])

text \<open>
  C10. No entry of the lattice is returned by both \<^verbatim>\<open>attachedCells\<close> and
  \<^verbatim>\<open>boundaryCells\<close>: every cell that \<^verbatim>\<open>boundaryCells\<close> returns is unattached, also
  when its \<^verbatim>\<open>boundary\<close> flag is still set, and every cell that \<^verbatim>\<open>attachedCells\<close>
  returns is attached. Both queries leave the lattice as it was.
\<close>

theorem queries_disjoint_and_pure:
  "set (fst (attachedCells L)) \<inter> set (fst (boundaryCells L)) = {}
   \<and> list_all (\<lambda>(k, c). attached c) (fst (attachedCells L))
   \<and> list_all (\<lambda>(k, c). boundary c \<and> \<not> attached c) (fst (boundaryCells L))
   \<and> snd (attachedCells L) = L \<and> snd (boundaryCells L) = L"
  by (auto simp: attachedCells_def boundaryCells_def list_all_iff)

section \<open>Passes over the lattice\<close>

lemma cell_at_set_cell:
  "cell_at (set_cell k c L) k' = (if k' = k then Some c else cell_at L k')"
  by (simp add: cell_at_def set_cell_def update_conv')

lemma keys_set_cell:
  "cell_at L k = Some c \<Longrightarrow> map fst (cells (set_cell k c' L)) = map fst (cells L)"
  by (auto simp: cell_at_def set_cell_def update_keys dest: map_of_SomeD intro: rev_image_eqI)

lemma size_set_cell [simp]: "lattice_size (set_cell k c L) = lattice_size L"
  by (simp add: set_cell_def)

lemma forEach_visit_rule:
  fixes L :: "'m CrystalLattice"
  assumes "distinct ks" and "G L"
    and visit_ok: "\<And>L' k c. G L' \<Longrightarrow> k \<in> set ks \<Longrightarrow> cell_at L' k = Some c
           \<Longrightarrow> \<exists>c'. m k L' c = Inr c' \<and> Q k c c' \<and> G (set_cell k c' L')"
  shows "\<exists>L'. forEach (visit m) ks L = Inr L' \<and> G L'
           \<and> lattice_size L' = lattice_size L
           \<and> map fst (cells L') = map fst (cells L)
           \<and> (\<forall>k. rel_option (\<lambda>c c'. if k \<in> set ks then Q k c c' else c' = c)
                               (cell_at L k) (cell_at L' k))"
  using assms
proof (induction ks arbitrary: L)
  case Nil
  have "rel_option (\<lambda>c c'. c' = c) x x" for x :: "'m SnowflakeCell option"
    by (cases x) simp_all
  with Nil show ?case by simp
next
  case (Cons k ks)
  have dks: "distinct ks" and knot: "k \<notin> set ks"
    using Cons.prems(1) by simp_all
  have vis: "\<And>L' j c. G L' \<Longrightarrow> j \<in> set ks \<Longrightarrow> cell_at L' j = Some c
           \<Longrightarrow> \<exists>c'. m j L' c = Inr c' \<and> Q j c c' \<and> G (set_cell j c' L')"
    using Cons.prems(3) by simp
  show ?case
  proof (cases "cell_at L k")
    case None
    then have v: "visit m k L = Inr L"
      by (simp add: visit_def cell_at_def)
    from Cons.IH [OF dks Cons.prems(2) vis] obtain L' where
      L': "forEach (visit m) ks L = Inr L'" "G L'" "lattice_size L' = lattice_size L"
          "map fst (cells L') = map fst (cells L)"
          "\<forall>j. rel_option (\<lambda>c c'. if j \<in> set ks then Q j c c' else c' = c)
                           (cell_at L j) (cell_at L' j)"
      by blast
    have "rel_option (\<lambda>c c'. if j \<in> set (k # ks) then Q j c c' else c' = c)
            (cell_at L j) (cell_at L' j)" for j
    proof (cases "j = k")
      case True
      with L'(5) [rule_format, of k] None show ?thesis
        by (cases "cell_at L' k") simp_all
    next
      case False
      with L'(5) [rule_format, of j] show ?thesis by simp
    qed
    with v L' show ?thesis by simp
  next
    case (Some c)
    from Cons.prems(3) [OF Cons.prems(2) _ Some] obtain c' where
      c': "m k L c = Inr c'" "Q k c c'" "G (set_cell k c' L)"
      by auto
    let ?L1 = "set_cell k c' L"
    have v: "visit m k L = Inr ?L1"
      using Some c'(1) by (simp add: visit_def cell_at_def)
    from Cons.IH [OF dks c'(3) vis] obtain L' where
      L': "forEach (visit m) ks ?L1 = Inr L'" "G L'" "lattice_size L' = lattice_size ?L1"
          "map fst (cells L') = map fst (cells ?L1)"
          "\<forall>j. rel_option (\<lambda>c c'. if j \<in> set ks then Q j c c' else c' = c)
                           (cell_at ?L1 j) (cell_at L' j)"
      by blast
    have "rel_option (\<lambda>c c'. if j \<in> set (k # ks) then Q j c c' else c' = c)
            (cell_at L j) (cell_at L' j)" for j
    proof (cases "j = k")
      case True
      with L'(5) [rule_format, of k] knot Some c'(2) show ?thesis
        by (cases "cell_at L' k") (simp_all add: cell_at_set_cell)
    next
      case False
      with L'(5) [rule_format, of j] show ?thesis
        by (simp add: cell_at_set_cell)
    qed
    with v L' keys_set_cell [OF Some, of c'] show ?thesis by simp
  qed
qed

lemma same_view_refl: "same_view L L"
  unfolding same_view_def by (simp add: option.rel_refl)

lemma same_view_cell:
  assumes "same_view L L'"
  shows "(cell_at L' k = None) = (cell_at L k = None)"
    and "cell_at L' k = Some c' \<Longrightarrow> \<exists>c. cell_at L k = Some c \<and> attached c' = attached c
           \<and> diffusiveMass c' = diffusiveMass c"
  using assms [unfolded same_view_def, rule_format, of k]
  by (cases "cell_at L k"; cases "cell_at L' k"; simp)+

lemma objs_Cons:
  "objs L (k # ks) = (case cell_at L k of None \<Rightarrow> objs L ks | Some c \<Rightarrow> c # objs L ks)"
  by (simp add: objs_def cell_at_def split: option.splits)

lemma objs_Nil [simp]: "objs L [] = []"
  by (simp add: objs_def)

lemma same_view_objs:
  assumes "same_view L L'"
  shows "map (\<lambda>c. (attached c, diffusiveMass c)) (objs L' ns)
         = map (\<lambda>c. (attached c, diffusiveMass c)) (objs L ns)"
proof (induction ns)
  case Nil
  show ?case by simp
next
  case (Cons k ns)
  from assms [unfolded same_view_def, rule_format, of k] Cons show ?case
    by (cases "cell_at L k"; cases "cell_at L' k"; simp add: objs_Cons)
qed

lemma same_view_list_ex:
  assumes "same_view L L'"
  shows "list_ex attached (objs L' ns) = list_ex attached (objs L ns)"
proof -
  have "list_ex attached xs = list_ex fst (map (\<lambda>c. (attached c, diffusiveMass c)) xs)"
    for xs :: "real SnowflakeCell list"
    by (induction xs) simp_all
  then show ?thesis
    by (simp add: same_view_objs [OF assms])
qed

lemma same_view_sum:
  assumes "same_view L L'"
  shows "sum_list (map (contribution own) (objs L' ns))
         = sum_list (map (contribution own) (objs L ns))"
proof -
  have "map (contribution own) xs
        = map (\<lambda>(a, d). if a then own else d) (map (\<lambda>c. (attached c, diffusiveMass c)) xs)"
    for xs :: "real SnowflakeCell list"
    by (simp add: contribution_def)
  then show ?thesis
    by (simp only: same_view_objs [OF assms])
qed

lemma same_view_refs_where:
  assumes "same_view L L'"
  shows "refs_where L' attached ns = refs_where L attached ns"
proof -
  have "(case cell_at L' k of None \<Rightarrow> False | Some n \<Rightarrow> attached n)
        = (case cell_at L k of None \<Rightarrow> False | Some n \<Rightarrow> attached n)" for k
    using assms [unfolded same_view_def, rule_format, of k]
    by (cases "cell_at L k"; cases "cell_at L' k"; simp)
  then show ?thesis
    by (simp add: refs_where_def cell_at_def)
qed

lemma same_view_nbrs:
  assumes "same_view L L'"
  shows "nbrs L' c = nbrs L c"
proof -
  have "(case get L' a b of None \<Rightarrow> acc | Some n \<Rightarrow> acc @ [(a, b)])
        = (case get L a b of None \<Rightarrow> acc | Some n \<Rightarrow> acc @ [(a, b)])" for a b and acc :: "coord list"
    using same_view_cell(1) [OF assms, of "(a, b)"]
    by (cases "get L a b"; cases "get L' a b"; simp add: get_def cell_at_def)
  then have "neighbors_loop L' c = neighbors_loop L c"
    by (simp add: neighbors_loop_def Let_def)
  then show ?thesis
    by (cases "neighbors_memo c") (simp_all add: nbrs_def neighbors_def Let_def)
qed

lemma stepOne_cong:
  assumes "same_view L L'"
  shows "stepOne L' c = stepOne L c"
  by (simp add: stepOne_eq same_view_nbrs [OF assms] same_view_list_ex [OF assms]
        same_view_refs_where [OF assms] diffusion_mean_def same_view_sum [OF assms])

lemma attachmentStep_eq:
  assumes "boundary c" and "attachedNeighbors c = Some an"
  shows "attachmentStep P L c =
           Inr ((length an \<le> 2 \<and> boundaryMass c > beta P)
                \<or> (length an = 3
                    \<and> (boundaryMass c \<ge> 1
                        \<or> (summed_diff L c < theta P \<and> boundaryMass c \<ge> alpha P))),
                if length an = 3 \<and> \<not> boundaryMass c \<ge> 1
                then c\<lparr>neighbors_memo := Some (nbrs L c)\<rparr> else c)"
  using assms
  by (simp add: attachmentStep_def neighbors_eq Let_def fold_add_sum summed_diff_def)

lemma freezingStep_frame:
  "boundary (freezingStep P c) = boundary c"
  "attachedNeighbors (freezingStep P c) = attachedNeighbors c"
  "attached (freezingStep P c) = attached c"
  "next_dm (freezingStep P c) = next_dm c"
  "cell_q (freezingStep P c) = cell_q c"
  "cell_r (freezingStep P c) = cell_r c"
  "age (freezingStep P c) = age c"
  by (simp_all add: freezingStep_def Let_def)

lemma nbrs_Some: "neighbors_memo c = Some ns \<Longrightarrow> nbrs L c = ns"
  by (simp add: nbrs_def neighbors_def)

lemma stepTwo_ok:
  assumes "ready c"
  shows "\<exists>c2. stepTwo P L c = Inr c2 \<and> pass2_rel P c c2"
proof -
  from assms obtain v where v: "next_dm c = Some v"
    by (auto simp: ready_def)
  let ?c3 = "freezingStep P (c\<lparr>diffusiveMass := v, attachmentFlag := attached c\<rparr>)"
  show ?thesis
  proof (cases "boundary c")
    case False
    then show ?thesis
      using v
      by (simp add: stepTwo_def Let_def attachmentStep_def freezingStep_def meltingStep_def
            pass2_rel_def committed_def)
  next
    case True
    with assms obtain an ns where an: "attachedNeighbors c = Some an"
      and ns: "neighbors_memo c = Some ns"
      by (auto simp: ready_def)
    have b3: "boundary ?c3" and a3: "attachedNeighbors ?c3 = Some an"
      and m3: "neighbors_memo ?c3 = Some ns"
      using True an ns by (simp_all add: freezingStep_def Let_def)
    have same: "?c3\<lparr>neighbors_memo := Some (nbrs L ?c3)\<rparr> = ?c3"
      using m3 by (simp add: nbrs_Some [OF m3])
    show ?thesis
      using v True an ns
      by (simp add: stepTwo_def Let_def attachmentStep_eq [OF b3 a3] same pass2_rel_def
            committed_def)
         (simp add: freezingStep_def meltingStep_def Let_def)
  qed
qed

lemma pass2_rel_ready: "ready c \<Longrightarrow> pass2_rel P c c' \<Longrightarrow> ready c'"
  by (simp add: ready_def pass2_rel_def)

lemma stepOne_ready: "ready (stepOne L c)"
  by (simp add: ready_def stepOne_eq)

lemma same_view_set_cell:
  assumes "same_view L L'" and "cell_at L' k = Some c"
    and "attached c' = attached c" and "diffusiveMass c' = diffusiveMass c"
  shows "same_view L (set_cell k c' L')"
  unfolding same_view_def
proof
  fix j
  from assms(1) [unfolded same_view_def, rule_format, of j] assms(2-)
  show "rel_option (\<lambda>c c'. attached c' = attached c \<and> diffusiveMass c' = diffusiveMass c)
          (cell_at L j) (cell_at (set_cell k c' L') j)"
    by (cases "cell_at L j") (auto simp: cell_at_set_cell)
qed

lemma pass1_char:
  assumes "distinct ks"
  shows "\<exists>L1. pass1 ks L = Inr L1 \<and> same_view L L1
           \<and> lattice_size L1 = lattice_size L
           \<and> map fst (cells L1) = map fst (cells L)
           \<and> (\<forall>k. rel_option (\<lambda>c c'. if k \<in> set ks then c' = stepOne L c else c' = c)
                               (cell_at L k) (cell_at L1 k))"
  unfolding pass1_def
proof (rule forEach_visit_rule [OF assms, where G = "same_view L"])
  show "same_view L L" by (rule same_view_refl)
next
  fix L' k c
  assume sv: "same_view L L'" and c: "cell_at L' k = Some c"
  have "same_view L (set_cell k (stepOne L c) L')"
    by (rule same_view_set_cell [OF sv c]) (simp_all add: stepOne_eq)
  then show "\<exists>c'. Inr (stepOne L' c) = Inr c' \<and> c' = stepOne L c
               \<and> same_view L (set_cell k c' L')"
    by (simp add: stepOne_cong [OF sv])
qed

lemma all_ready_set_cell:
  "all_ready L \<Longrightarrow> ready c \<Longrightarrow> all_ready (set_cell k c L)"
  by (simp add: all_ready_def cell_at_set_cell)

lemma pass2_char:
  assumes "distinct ks" and "all_ready L"
  shows "\<exists>L2. pass2 P ks L = Inr L2 \<and> all_ready L2
           \<and> lattice_size L2 = lattice_size L
           \<and> map fst (cells L2) = map fst (cells L)
           \<and> (\<forall>k. rel_option (\<lambda>c c'. if k \<in> set ks then pass2_rel P c c' else c' = c)
                               (cell_at L k) (cell_at L2 k))"
  unfolding pass2_def
proof (rule forEach_visit_rule [OF assms(1), where G = all_ready])
  show "all_ready L" by (rule assms(2))
next
  fix L' :: "real CrystalLattice" and k c
  assume r: "all_ready L'" and c: "cell_at L' k = Some c"
  then have rc: "ready c" unfolding all_ready_def by blast
  from stepTwo_ok [OF rc] obtain c2 where "stepTwo P L' c = Inr c2" "pass2_rel P c c2"
    by blast
  with r rc show "\<exists>c'. stepTwo P L' c = Inr c' \<and> pass2_rel P c c'
                   \<and> all_ready (set_cell k c' L')"
    by (auto intro: all_ready_set_cell pass2_rel_ready)
qed

lemma pass3_char:
  assumes "distinct ks"
  shows "\<exists>L3. pass3 P rnd ks L = Inr L3
           \<and> lattice_size L3 = lattice_size L
           \<and> map fst (cells L3) = map fst (cells L)
           \<and> (\<forall>k. rel_option (\<lambda>c c'. if k \<in> set ks then c' = stepThree P (rnd k) c
                                        else c' = c)
                               (cell_at L k) (cell_at L3 k))"
  unfolding pass3_def
  using forEach_visit_rule [OF assms, where G = "\<lambda>L. True"
      and m = "\<lambda>k L c. Inr (stepThree P (rnd k) c)"
      and Q = "\<lambda>k c c'. c' = stepThree P (rnd k) c" and L = L]
  by simp

lemma cell_at_keys: "cell_at L k = Some c \<Longrightarrow> k \<in> set (map fst (cells L))"
  by (auto simp: cell_at_def dest: map_of_SomeD intro: rev_image_eqI)

lemma step_in_char:
  assumes d: "distinct o1" "distinct o2" "distinct o3"
    and s: "set o1 = set (map fst (cells L))" "set o2 = set (map fst (cells L))"
           "set o3 = set (map fst (cells L))"
  shows "\<exists>L'. step_in P rnd o1 o2 o3 L = Inr L'
           \<and> lattice_size L' = lattice_size L
           \<and> map fst (cells L') = map fst (cells L)
           \<and> (\<forall>k. rel_option (\<lambda>c c'. \<exists>c2. pass2_rel P (stepOne L c) c2
                                          \<and> c' = stepThree P (rnd k) c2)
                               (cell_at L k) (cell_at L' k))"
proof -
  from pass1_char [OF d(1), of L] obtain L1 where
    L1: "pass1 o1 L = Inr L1" "map fst (cells L1) = map fst (cells L)"
        "lattice_size L1 = lattice_size L"
        "\<And>k. rel_option (\<lambda>c c'. if k \<in> set o1 then c' = stepOne L c else c' = c)
               (cell_at L k) (cell_at L1 k)"
    by blast
  have r1: "all_ready L1"
    unfolding all_ready_def
  proof (intro allI impI)
    fix k c assume c: "cell_at L1 k = Some c"
    then have "k \<in> set o1"
      using cell_at_keys [OF c] L1(2) s(1) by simp
    with L1(4) [of k] c show "ready c"
      by (cases "cell_at L k") (simp_all add: stepOne_ready)
  qed
  from pass2_char [OF d(2) r1, of P] obtain L2 where
    L2: "pass2 P o2 L1 = Inr L2" "map fst (cells L2) = map fst (cells L1)"
        "lattice_size L2 = lattice_size L1"
        "\<And>k. rel_option (\<lambda>c c'. if k \<in> set o2 then pass2_rel P c c' else c' = c)
               (cell_at L1 k) (cell_at L2 k)"
    by blast
  from pass3_char [OF d(3), of P rnd L2] obtain L3 where
    L3: "pass3 P rnd o3 L2 = Inr L3" "map fst (cells L3) = map fst (cells L2)"
        "lattice_size L3 = lattice_size L2"
        "\<And>k. rel_option (\<lambda>c c'. if k \<in> set o3 then c' = stepThree P (rnd k) c else c' = c)
               (cell_at L2 k) (cell_at L3 k)"
    by blast
  have "rel_option (\<lambda>c c'. \<exists>c2. pass2_rel P (stepOne L c) c2 \<and> c' = stepThree P (rnd k) c2)
          (cell_at L k) (cell_at L3 k)" for k
  proof (cases "cell_at L k")
    case None
    with L1(4) [of k] have "cell_at L1 k = None" by (cases "cell_at L1 k") simp_all
    with L2(4) [of k] have "cell_at L2 k = None" by (cases "cell_at L2 k") simp_all
    with L3(4) [of k] have "cell_at L3 k = None" by (cases "cell_at L3 k") simp_all
    with None show ?thesis by simp
  next
    case (Some c)
    then have k: "k \<in> set o1" "k \<in> set o2" "k \<in> set o3"
      using cell_at_keys [OF Some] s by simp_all
    from L1(4) [of k] Some k have c1: "cell_at L1 k = Some (stepOne L c)"
      by (cases "cell_at L1 k") simp_all
    from L2(4) [of k] c1 k obtain c2 where
      c2: "cell_at L2 k = Some c2" "pass2_rel P (stepOne L c) c2"
      by (cases "cell_at L2 k") simp_all
    from L3(4) [of k] c2 k have "cell_at L3 k = Some (stepThree P (rnd k) c2)"
      by (cases "cell_at L3 k") simp_all
    with Some c2 show ?thesis by auto
  qed
  with L1 L2 L3 show ?thesis
    by (simp add: step_in_def)
qed

lemma step_char:
  assumes "distinct (map fst (cells L))"
  shows "\<exists>L'. step P rnd L = Inr L'
           \<and> lattice_size L' = lattice_size L
           \<and> map fst (cells L') = map fst (cells L)
           \<and> (\<forall>k. rel_option (\<lambda>c c'. \<exists>c2. pass2_rel P (stepOne L c) c2
                                          \<and> c' = stepThree P (rnd k) c2)
                               (cell_at L k) (cell_at L' k))"
  unfolding step_def
  by (rule step_in_char) (simp_all add: assms)

subsection \<open>The neighbours in a well-formed lattice\<close>

lemma fold_collect:
  "fold (\<lambda>d acc. case g d of None \<Rightarrow> acc | Some n \<Rightarrow> acc @ [h d]) ds acc0
     = acc0 @ map h (filter (\<lambda>d. g d \<noteq> None) ds)"
  by (induction ds arbitrary: acc0) (auto split: option.splits)

lemma neighbors_loop_adjacent:
  "neighbors_loop L c = adjacent L (cell_q c, cell_r c)"
proof -
  have "neighbors_loop L c
        = fold (\<lambda>d acc. case cell_at L (cell_q c + HEX_DX ! d, cell_r c + HEX_DY ! d) of
                           None \<Rightarrow> acc
                         | Some n \<Rightarrow> acc @ [(cell_q c + HEX_DX ! d, cell_r c + HEX_DY ! d)])
               [0 ..< 6] []"
    by (simp add: neighbors_loop_def Let_def get_def cell_at_def)
  then show ?thesis
    by (simp only: fold_collect adjacent_def filter_map o_def fst_conv snd_conv append_Nil)
qed

lemma nbrs_adjacent:
  assumes "well_formed L" and "cell_at L k = Some c"
  shows "nbrs L c = adjacent L k"
proof -
  from assms have q: "cell_q c = fst k" "cell_r c = snd k"
    and m: "\<And>ns. neighbors_memo c = Some ns \<Longrightarrow> ns = adjacent L k"
    unfolding well_formed_def by blast+
  show ?thesis
  proof (cases "neighbors_memo c")
    case None
    then show ?thesis
      using q by (simp add: nbrs_def neighbors_def neighbors_loop_adjacent Let_def)
  next
    case (Some ns)
    with m show ?thesis by (simp add: nbrs_Some)
  qed
qed

lemma adjacent_cong:
  assumes "\<And>j. (cell_at L' j = None) = (cell_at L j = None)"
  shows "adjacent L' k = adjacent L k"
  by (simp add: adjacent_def assms)

section \<open>Properties of a step\<close>

lemma rel_option_SomeD:
  "rel_option R (Some a) y \<Longrightarrow> \<exists>b. y = Some b \<and> R a b"
  by (cases y) simp_all

lemma stepThree_attached:
  "attached (stepThree P u c) = (attached c \<or> (boundary c \<and> attachmentFlag c))"
  by (simp add: stepThree_def noiseStep_def attach_def Let_def)

lemma stepThree_boundary: "boundary (stepThree P u c) = boundary c"
  by (simp add: stepThree_def noiseStep_def attach_def Let_def)

lemma stepOne_attached: "attached (stepOne L c) = attached c"
  by (simp add: stepOne_eq)

lemma stepOne_boundary:
  "boundary (stepOne L c) = (\<not> attached c \<and> list_ex attached (objs L (nbrs L c)))"
  by (simp add: stepOne_eq)

lemma step_attached:
  assumes "distinct (map fst (cells L))"
  shows "\<exists>L'. step P rnd L = Inr L' \<and> map fst (cells L') = map fst (cells L)
           \<and> (\<forall>k c. cell_at L k = Some c \<and> attached c
                  \<longrightarrow> (\<exists>c'. cell_at L' k = Some c' \<and> attached c'))"
proof -
  from step_char [OF assms, of P rnd] obtain L' where
    L': "step P rnd L = Inr L'" "map fst (cells L') = map fst (cells L)"
        "\<And>k. rel_option (\<lambda>c c'. \<exists>c2. pass2_rel P (stepOne L c) c2
                                  \<and> c' = stepThree P (rnd k) c2)
               (cell_at L k) (cell_at L' k)"
    by blast
  have "\<exists>c'. cell_at L' k = Some c' \<and> attached c'"
    if "cell_at L k = Some c" "attached c" for k c
    using L'(3) [of k] that
    by (auto dest!: rel_option_SomeD simp: stepThree_attached pass2_rel_def stepOne_attached)
  with L'(1,2) show ?thesis by blast
qed

text \<open>
  C7. Once a cell is attached it stays attached: from any lattice whose keys are distinct,
  any number of steps, whatever the random draws, runs to completion, keeps the cells, and
  every cell that was attached at the start is attached at the end.
\<close>

theorem attached_never_reverts:
  assumes "distinct (map fst (cells L))"
  shows "\<exists>L'. steps P rnds L = Inr L' \<and> map fst (cells L') = map fst (cells L)
           \<and> (\<forall>k c. cell_at L k = Some c \<and> attached c
                  \<longrightarrow> (\<exists>c'. cell_at L' k = Some c' \<and> attached c'))"
  using assms
proof (induction rnds arbitrary: L)
  case Nil
  show ?case by simp
next
  case (Cons rnd rnds)
  from step_attached [OF Cons.prems, of P rnd] obtain L1 where
    L1: "step P rnd L = Inr L1" "map fst (cells L1) = map fst (cells L)"
        "\<And>k c. cell_at L k = Some c \<Longrightarrow> attached c
           \<Longrightarrow> \<exists>c'. cell_at L1 k = Some c' \<and> attached c'"
    by blast
  from Cons.prems L1(2) have "distinct (map fst (cells L1))" by simp
  from Cons.IH [OF this] obtain L' where
    L': "steps P rnds L1 = Inr L'" "map fst (cells L') = map fst (cells L1)"
        "\<And>k c. cell_at L1 k = Some c \<Longrightarrow> attached c
           \<Longrightarrow> \<exists>c'. cell_at L' k = Some c' \<and> attached c'"
    by blast
  have "\<exists>c'. cell_at L' k = Some c' \<and> attached c'"
    if "cell_at L k = Some c" "attached c" for k c
    using L1(3) [OF that] L'(3) by blast
  with L1(1,2) L'(1,2) show ?case by auto
qed

lemma committed_not_boundary:
  "\<not> boundary c \<Longrightarrow> next_dm c = Some v \<Longrightarrow>
     diffusiveMass (committed P c) = v \<and> boundaryMass (committed P c) = boundaryMass c
     \<and> crystalMass (committed P c) = crystalMass c"
  by (simp add: committed_def freezingStep_def meltingStep_def)

lemma stepThree_skip:
  "attached c \<Longrightarrow> \<not> boundary c \<Longrightarrow> stepThree P u c = c"
  by (simp add: stepThree_def noiseStep_def)

text \<open>
  C9. A cell that is attached at the start of a step keeps its diffusive, boundary and
  crystal mass through that step (and ends the step attached, with its boundary flag
  cleared by Pass 1).
\<close>

theorem attached_cell_masses_unchanged:
  assumes "distinct (map fst (cells L))"
  shows "\<exists>L'. step P rnd L = Inr L'
           \<and> (\<forall>k c. cell_at L k = Some c \<and> attached c
                  \<longrightarrow> (\<exists>c'. cell_at L' k = Some c'
                         \<and> diffusiveMass c' = diffusiveMass c
                         \<and> boundaryMass c' = boundaryMass c
                         \<and> crystalMass c' = crystalMass c
                         \<and> attached c' \<and> \<not> boundary c'))"
proof -
  from step_char [OF assms, of P rnd] obtain L' where
    L': "step P rnd L = Inr L'"
        "\<And>k. rel_option (\<lambda>c c'. \<exists>c2. pass2_rel P (stepOne L c) c2
                                  \<and> c' = stepThree P (rnd k) c2)
               (cell_at L k) (cell_at L' k)"
    by blast
  have "\<exists>c'. cell_at L' k = Some c' \<and> diffusiveMass c' = diffusiveMass c
           \<and> boundaryMass c' = boundaryMass c \<and> crystalMass c' = crystalMass c
           \<and> attached c' \<and> \<not> boundary c'"
    if c: "cell_at L k = Some c" and a: "attached c" for k c
  proof -
    from L'(2) [of k] c obtain c2 where
      c2: "pass2_rel P (stepOne L c) c2" "cell_at L' k = Some (stepThree P (rnd k) c2)"
      by (auto dest!: rel_option_SomeD)
    have s1: "\<not> boundary (stepOne L c)" "next_dm (stepOne L c) = Some (diffusiveMass c)"
             "boundaryMass (stepOne L c) = boundaryMass c"
             "crystalMass (stepOne L c) = crystalMass c" "attached (stepOne L c)"
      using a by (simp_all add: stepOne_eq)
    from c2(1) committed_not_boundary [OF s1(1,2), of P] s1
    have "diffusiveMass c2 = diffusiveMass c" "boundaryMass c2 = boundaryMass c"
         "crystalMass c2 = crystalMass c" "attached c2" "\<not> boundary c2"
      by (simp_all add: pass2_rel_def)
    with c2(2) show ?thesis
      by (simp add: stepThree_skip)
  qed
  with L'(1) show ?thesis by blast
qed

text \<open>
  C3, as amended. After a completed step a cell's \<^verbatim>\<open>boundary\<close> flag is set exactly
  when, in the lattice at the start of that step, the cell was unattached and one of its
  neighbours was attached. Attachments committed in Pass 3 of the step are not reflected.
  The neighbours are those the getter \<^verbatim>\<open>neighbors\<close> returns; in a well-formed lattice
  they are the cells at the adjacent coordinates.
\<close>

theorem boundary_reflects_start_of_step:
  assumes "distinct (map fst (cells L))"
  shows "\<exists>L'. step P rnd L = Inr L'
           \<and> (\<forall>k c. cell_at L k = Some c
                  \<longrightarrow> (\<exists>c'. cell_at L' k = Some c'
                         \<and> boundary c' = (\<not> attached c
                                           \<and> list_ex attached (objs L (nbrs L c))))
                      \<and> (well_formed L \<longrightarrow> nbrs L c = adjacent L k))"
proof -
  from step_char [OF assms, of P rnd] obtain L' where
    L': "step P rnd L = Inr L'"
        "\<And>k. rel_option (\<lambda>c c'. \<exists>c2. pass2_rel P (stepOne L c) c2
                                  \<and> c' = stepThree P (rnd k) c2)
               (cell_at L k) (cell_at L' k)"
    by blast
  have "(\<exists>c'. cell_at L' k = Some c'
           \<and> boundary c' = (\<not> attached c \<and> list_ex attached (objs L (nbrs L c))))
        \<and> (well_formed L \<longrightarrow> nbrs L c = adjacent L k)"
    if c: "cell_at L k = Some c" for k c
    using L'(2) [of k] c nbrs_adjacent [of L k c]
    by (auto dest!: rel_option_SomeD simp: stepThree_boundary pass2_rel_def stepOne_boundary)
  with L'(1) show ?thesis by blast
qed

lemma cell_at_entry:
  "distinct (map fst (cells L)) \<Longrightarrow> (cell_at L k = Some c) = ((k, c) \<in> set (cells L))"
  by (simp add: cell_at_def)

lemma objs_cell: "c \<in> set (objs L ns) \<Longrightarrow> \<exists>k. cell_at L k = Some c"
  by (induction ns) (auto simp: objs_Cons split: option.splits)

lemma fill_row:
  "cell_at (fold (\<lambda>r L. if \<bar>q + r\<bar> > n then L else set_cell (q, r) (new_cell P q r) L) rs L) k
     = (if fst k = q \<and> snd k \<in> set rs \<and> \<bar>q + snd k\<bar> \<le> n
        then Some (new_cell P q (snd k)) else cell_at L k)"
  by (induction rs arbitrary: L) (auto simp: cell_at_set_cell)

lemma fill_rows:
  "cell_at (fold (\<lambda>q L. fold (\<lambda>r L. if \<bar>q + r\<bar> > n then L
                                       else set_cell (q, r) (new_cell P q r) L) rs L) qs L) k
     = (if fst k \<in> set qs \<and> snd k \<in> set rs \<and> \<bar>fst k + snd k\<bar> \<le> n
        then Some (new_cell P (fst k) (snd k)) else cell_at L k)"
  by (induction qs arbitrary: L) (auto simp: fill_row)

lemma cell_at_fill_grid:
  "cell_at (fill_grid P n) (q, r)
     = (if - n \<le> q \<and> q \<le> n \<and> - n \<le> r \<and> r \<le> n \<and> \<bar>q + r\<bar> \<le> n
        then Some (new_cell P q r) else None)"
  by (simp add: fill_grid_def fill_rows) (simp add: cell_at_def)

lemma distinct_set_cell:
  "distinct (map fst (cells L)) \<Longrightarrow> distinct (map fst (cells (set_cell k c L)))"
  by (simp add: set_cell_def distinct_update)

lemma distinct_fill_row:
  "distinct (map fst (cells L)) \<Longrightarrow>
   distinct (map fst (cells (fold (\<lambda>r L. if \<bar>q + r\<bar> > n then L
                                          else set_cell (q, r) (new_cell P q r) L) rs L)))"
  by (induction rs arbitrary: L) (simp_all add: distinct_set_cell)

lemma distinct_fill_rows:
  "distinct (map fst (cells L)) \<Longrightarrow>
   distinct (map fst (cells (fold (\<lambda>q L. fold (\<lambda>r L. if \<bar>q + r\<bar> > n then L
                                       else set_cell (q, r) (new_cell P q r) L) rs L) qs L)))"
  by (induction qs arbitrary: L) (simp_all add: distinct_fill_row)

lemma distinct_fill_grid: "distinct (map fst (cells (fill_grid P n)))"
  by (simp add: fill_grid_def distinct_fill_rows)

lemma constructor_eq:
  "constructor P n =
     (if n < 0 then Inl TypeError
      else Inr (set_cell (0, 0) ((new_cell P 0 0)\<lparr>attached := True\<rparr>) (fill_grid P n)))"
  using cell_at_fill_grid [of P n 0 0]
  by (simp add: constructor_def get_def cell_at_def Let_def)

section \<open>Witnesses, the constructor and the attachment rule\<close>

lemma grown_distinct: "distinct (map fst (cells grown_lattice))"
  by (simp add: grown_lattice_def grown_cell_def)

lemma grown_attached_cell: "\<exists>c. cell_at grown_lattice (0, 1) = Some c \<and> attached c"
  by (simp add: cell_at_def grown_lattice_def grown_cell_def)

theorem attached_never_reverts_witness:
  "distinct (map fst (cells grown_lattice))
   \<and> (\<exists>c. cell_at grown_lattice (0, 1) = Some c \<and> attached c)
   \<and> (\<exists>L'. steps tuned_params [no_noise, first_draws] grown_lattice = Inr L'
          \<and> (\<exists>c'. cell_at L' (0, 1) = Some c' \<and> attached c'))"
proof -
  from attached_never_reverts [OF grown_distinct, of tuned_params "[no_noise, first_draws]"]
  obtain L' where "steps tuned_params [no_noise, first_draws] grown_lattice = Inr L'"
    and "\<forall>k c. cell_at grown_lattice k = Some c \<and> attached c
           \<longrightarrow> (\<exists>c'. cell_at L' k = Some c' \<and> attached c')"
    by blast
  with grown_attached_cell grown_distinct show ?thesis by blast
qed

theorem attached_cell_masses_unchanged_witness:
  "distinct (map fst (cells grown_lattice))
   \<and> (\<exists>c. cell_at grown_lattice (0, 1) = Some c \<and> attached c
          \<and> (\<exists>L'. step tuned_params no_noise grown_lattice = Inr L'
                 \<and> (\<exists>c'. cell_at L' (0, 1) = Some c'
                        \<and> diffusiveMass c' = diffusiveMass c
                        \<and> boundaryMass c' = boundaryMass c
                        \<and> crystalMass c' = crystalMass c)))"
proof -
  from grown_attached_cell obtain c where
    c: "cell_at grown_lattice (0, 1) = Some c" "attached c"
    by blast
  from attached_cell_masses_unchanged [OF grown_distinct, of tuned_params no_noise]
  obtain L' where L': "step tuned_params no_noise grown_lattice = Inr L'"
    and "\<forall>k c. cell_at grown_lattice k = Some c \<and> attached c
           \<longrightarrow> (\<exists>c'. cell_at L' k = Some c'
                  \<and> diffusiveMass c' = diffusiveMass c
                  \<and> boundaryMass c' = boundaryMass c
                  \<and> crystalMass c' = crystalMass c
                  \<and> attached c' \<and> \<not> boundary c')"
    by blast
  with c obtain c' where "cell_at L' (0, 1) = Some c'"
    "diffusiveMass c' = diffusiveMass c" "boundaryMass c' = boundaryMass c"
    "crystalMass c' = crystalMass c"
    by blast
  with L' c grown_distinct show ?thesis by blast
qed

lemma seed_step_eval:
  "(case constructor (default_params\<lparr>beta := 0\<rparr>) 1 of
      Inl e \<Rightarrow> False
    | Inr L \<Rightarrow> (case step (default_params\<lparr>beta := 0\<rparr>) no_noise L of
                  Inl e \<Rightarrow> False
                | Inr L' \<Rightarrow> \<not> boundary_consistent L'))"
  by code_simp

text \<open>
  C3 as stated fails. With \<open>beta = 0\<close> the six neighbours of the seed attach in the first
  step of a lattice of radius 1; each of them ends the step attached with its
  \<^verbatim>\<open>boundary\<close> flag still set.
\<close>

theorem boundary_stale_after_attachment:
  "\<exists>L L'. constructor (default_params\<lparr>beta := 0\<rparr>) 1 = Inr L
       \<and> step (default_params\<lparr>beta := 0\<rparr>) no_noise L = Inr L'
       \<and> \<not> boundary_consistent L'"
  using seed_step_eval by (auto split: sum.splits)

lemma grown_boundary_eval:
  "(case cell_at grown_lattice (1, 0) of
      None \<Rightarrow> False
    | Some c \<Rightarrow> \<not> attached c
                 \<and> list_ex attached (objs grown_lattice (nbrs grown_lattice c)))
   \<and> (case cell_at grown_lattice (2, 0) of
        None \<Rightarrow> False
      | Some c \<Rightarrow> \<not> (\<not> attached c
                      \<and> list_ex attached (objs grown_lattice (nbrs grown_lattice c))))"
  by code_simp

theorem boundary_reflects_start_of_step_witness:
  "distinct (map fst (cells grown_lattice))
   \<and> (\<exists>L'. step tuned_params no_noise grown_lattice = Inr L'
          \<and> (\<exists>c'. cell_at L' (1, 0) = Some c' \<and> boundary c')
          \<and> (\<exists>c'. cell_at L' (2, 0) = Some c' \<and> \<not> boundary c'))"
proof -
  from grown_boundary_eval obtain c1 where
    c1: "cell_at grown_lattice (1, 0) = Some c1"
        "\<not> attached c1 \<and> list_ex attached (objs grown_lattice (nbrs grown_lattice c1))"
    by (cases "cell_at grown_lattice (1, 0)") simp_all
  from grown_boundary_eval obtain c2 where
    c2: "cell_at grown_lattice (2, 0) = Some c2"
        "\<not> (\<not> attached c2 \<and> list_ex attached (objs grown_lattice (nbrs grown_lattice c2)))"
    by (cases "cell_at grown_lattice (2, 0)") simp_all
  from boundary_reflects_start_of_step [OF grown_distinct, of tuned_params no_noise]
  obtain L' where L': "step tuned_params no_noise grown_lattice = Inr L'"
    and r: "\<And>k c. cell_at grown_lattice k = Some c
           \<Longrightarrow> \<exists>c'. cell_at L' k = Some c'
                  \<and> boundary c' = (\<not> attached c
                       \<and> list_ex attached (objs grown_lattice (nbrs grown_lattice c)))"
    by blast
  from r [OF c1(1)] c1(2) have "\<exists>c'. cell_at L' (1, 0) = Some c' \<and> boundary c'" by blast
  moreover from r [OF c2(1)] c2(2)
  have "\<exists>c'. cell_at L' (2, 0) = Some c' \<and> \<not> boundary c'" by blast
  ultimately show ?thesis using L' grown_distinct by blast
qed

lemma lattice_size_fill_row:
  "lattice_size (fold (\<lambda>r L. if \<bar>q + r\<bar> > n then L
                              else set_cell (q, r) (new_cell P q r) L) rs L) = lattice_size L"
  by (induction rs arbitrary: L) simp_all

lemma lattice_size_fill_rows:
  "lattice_size (fold (\<lambda>q L. fold (\<lambda>r L. if \<bar>q + r\<bar> > n then L
                                       else set_cell (q, r) (new_cell P q r) L) rs L) qs L)
     = lattice_size L"
  by (induction qs arbitrary: L) (simp_all add: lattice_size_fill_row)

lemma lattice_size_fill_grid: "lattice_size (fill_grid P n) = n"
  by (simp add: fill_grid_def lattice_size_fill_rows)

lemma constructor_cells:
  assumes "0 \<le> n"
  shows "\<exists>L. constructor P n = Inr L \<and> lattice_size L = n
           \<and> distinct (map fst (cells L))
           \<and> (\<forall>q r. cell_at L (q, r)
                      = (if \<bar>q\<bar> \<le> n \<and> \<bar>r\<bar> \<le> n \<and> \<bar>q + r\<bar> \<le> n
                         then Some ((new_cell P q r)\<lparr>attached := (q = 0 \<and> r = 0)\<rparr>)
                         else None))"
proof -
  let ?L = "set_cell (0, 0) ((new_cell P 0 0)\<lparr>attached := True\<rparr>) (fill_grid P n)"
  have "constructor P n = Inr ?L"
    using assms by (simp add: constructor_eq)
  moreover have "lattice_size ?L = n"
    by (simp add: lattice_size_fill_grid)
  moreover have "distinct (map fst (cells ?L))"
    by (intro distinct_set_cell distinct_fill_grid)
  moreover have "cell_at ?L (q, r)
                   = (if \<bar>q\<bar> \<le> n \<and> \<bar>r\<bar> \<le> n \<and> \<bar>q + r\<bar> \<le> n
                      then Some ((new_cell P q r)\<lparr>attached := (q = 0 \<and> r = 0)\<rparr>)
                      else None)" for q r
    using assms
    by (auto simp: cell_at_set_cell cell_at_fill_grid new_cell_def abs_le_iff)
  ultimately show ?thesis by blast
qed

text \<open>
  C4 as stated fails: the constructor accepts the radius 0 and returns the lattice of one
  cell, the attached origin.
\<close>

theorem constructor_radius_zero_succeeds:
  "constructor default_params 0
     = Inr \<lparr>lattice_size = 0,
            cells = [((0, 0), (new_cell default_params 0 0)\<lparr>attached := True\<rparr>)]\<rparr>"
  by code_simp

text \<open>
  C4, as amended. The constructor fails exactly for a negative radius, with the TypeError
  of \<^verbatim>\<open>this.get(0, 0).attached = true\<close> on an empty Map, and then returns no lattice.
  For every radius \<open>n \<ge> 0\<close> it returns the lattice of the cells with
  \<open>|q| \<le> n\<close>, \<open>|r| \<le> n\<close>, \<open>|q + r| \<le> n\<close>, all fresh, the origin alone attached.
\<close>

theorem constructor_fails_only_below_zero:
  "(n < 0 \<longrightarrow> constructor P n = Inl TypeError)
   \<and> (0 \<le> n \<longrightarrow>
        (\<exists>L. constructor P n = Inr L \<and> lattice_size L = n
           \<and> (\<forall>q r. cell_at L (q, r)
                      = (if \<bar>q\<bar> \<le> n \<and> \<bar>r\<bar> \<le> n \<and> \<bar>q + r\<bar> \<le> n
                         then Some ((new_cell P q r)\<lparr>attached := (q = 0 \<and> r = 0)\<rparr>)
                         else None))))"
  using constructor_cells [of n P] by (auto simp: constructor_eq)

theorem constructor_fails_only_below_zero_witness:
  "constructor default_params (- 1) = Inl TypeError
   \<and> (\<exists>L. constructor default_params 0 = Inr L \<and> lattice_size L = 0
          \<and> cell_at L (0, 0) = Some ((new_cell default_params 0 0)\<lparr>attached := True\<rparr>)
          \<and> cell_at L (1, 0) = None)
   \<and> (\<exists>L. constructor default_params 2 = Inr L \<and> lattice_size L = 2
          \<and> cell_at L (0, 0) = Some ((new_cell default_params 0 0)\<lparr>attached := True\<rparr>)
          \<and> cell_at L (1, 1) = Some (new_cell default_params 1 1)
          \<and> cell_at L (2, 1) = None)"
proof -
  have n: "new_cell default_params 1 1 = (new_cell default_params 1 1)\<lparr>attached := False\<rparr>"
    by (simp add: new_cell_def)
  from constructor_fails_only_below_zero [of "- 1" default_params]
  have a: "constructor default_params (- 1) = Inl TypeError" by simp
  from constructor_fails_only_below_zero [of 0 default_params]
  obtain L0 where L0: "constructor default_params 0 = Inr L0" "lattice_size L0 = 0"
    "\<forall>q r. cell_at L0 (q, r)
            = (if \<bar>q\<bar> \<le> 0 \<and> \<bar>r\<bar> \<le> 0 \<and> \<bar>q + r\<bar> \<le> 0
               then Some ((new_cell default_params q r)\<lparr>attached := (q = 0 \<and> r = 0)\<rparr>)
               else None)"
    by auto
  from constructor_fails_only_below_zero [of 2 default_params]
  obtain L2 where L2: "constructor default_params 2 = Inr L2" "lattice_size L2 = 2"
    "\<forall>q r. cell_at L2 (q, r)
            = (if \<bar>q\<bar> \<le> 2 \<and> \<bar>r\<bar> \<le> 2 \<and> \<bar>q + r\<bar> \<le> 2
               then Some ((new_cell default_params q r)\<lparr>attached := (q = 0 \<and> r = 0)\<rparr>)
               else None)"
    by auto
  have "cell_at L0 (0, 0) = Some ((new_cell default_params 0 0)\<lparr>attached := True\<rparr>)"
       "cell_at L0 (1, 0) = None"
    using L0(3) by simp_all
  moreover have "cell_at L2 (0, 0) = Some ((new_cell default_params 0 0)\<lparr>attached := True\<rparr>)"
       "cell_at L2 (1, 1) = Some (new_cell default_params 1 1)"
       "cell_at L2 (2, 1) = None"
    using L2(3) n by simp_all
  ultimately show ?thesis using a L0(1,2) L2(1,2) by blast
qed

lemma list_ex_refs_where: "list_ex p (objs L ns) = (refs_where L p ns \<noteq> [])"
  by (induction ns) (auto simp: objs_Cons refs_where_def cell_at_def split: option.splits)

lemma refs_where_same_attached:
  assumes "\<And>k. rel_option (\<lambda>c c'. attached c' = attached c) (cell_at L k) (cell_at L' k)"
  shows "refs_where L' attached ns = refs_where L attached ns"
proof -
  have "(case cell_at L' k of None \<Rightarrow> False | Some n \<Rightarrow> attached n)
        = (case cell_at L k of None \<Rightarrow> False | Some n \<Rightarrow> attached n)" for k
    using assms [of k]
    by (cases "cell_at L k"; cases "cell_at L' k"; simp)
  then show ?thesis
    by (simp add: refs_where_def cell_at_def)
qed

lemma attach_rule_code:
  assumes "1 \<le> k"
  shows "((k \<le> 2 \<and> bm > beta P) \<or> (k = 3 \<and> (bm \<ge> 1 \<or> (sd < theta P \<and> bm \<ge> alpha P))))
         = attach_rule P k bm sd"
  using assms by (auto simp: attach_rule_def)

lemma stepTwo_flag:
  assumes v: "next_dm c = Some v" and b: "boundary c"
    and an: "attachedNeighbors c = Some an" and k: "1 \<le> length an"
  shows "\<exists>c'. stepTwo P L c = Inr c'
           \<and> attachmentFlag c'
               = attach_rule P (length an)
                   (boundaryMass (freezingStep P (c\<lparr>diffusiveMass := v\<rparr>)))
                   (summed_diff L (freezingStep P (c\<lparr>diffusiveMass := v\<rparr>)))"
proof -
  let ?c3 = "freezingStep P (c\<lparr>diffusiveMass := v, attachmentFlag := attached c\<rparr>)"
  have b3: "boundary ?c3" and a3: "attachedNeighbors ?c3 = Some an"
    using b an by (simp_all add: freezingStep_frame)
  have m: "boundaryMass ?c3 = boundaryMass (freezingStep P (c\<lparr>diffusiveMass := v\<rparr>))"
          "summed_diff L ?c3 = summed_diff L (freezingStep P (c\<lparr>diffusiveMass := v\<rparr>))"
    using b by (simp_all add: freezingStep_def summed_diff_def Let_def)
  show ?thesis
    using v
    by (simp add: stepTwo_def Let_def attachmentStep_eq [OF b3 a3] attach_rule_code [OF k] m)
       (simp add: meltingStep_def Let_def)
qed

text \<open>
  C1. Pass 1 has run over all cells and Pass 2 has visited the cells \<open>ks\<close>, in any order
  and any number of them. For a boundary cell that Pass 2 visits next, \<^verbatim>\<open>stepTwo\<close>
  succeeds, the number \<open>k\<close> of its neighbours that are attached is at least 1, and the
  flag it stores is the rule of the specification: for \<open>k \<in> {1, 2}\<close> the boundary mass
  exceeds \<open>beta\<close>; for \<open>k = 3\<close> the boundary mass is at least 1, or at least \<open>alpha\<close>
  with the diffusive mass summed over the cell and its neighbours below \<open>theta\<close>; false for
  every other \<open>k\<close>. The boundary mass and the cell's own diffusive mass are those after
  freezing and before melting; the neighbours' diffusive masses are read from the lattice as
  the visits so far have left it.
\<close>

theorem attachment_decision_in_pass2:
  assumes o1: "distinct o1" "set o1 = set (map fst (cells L))"
    and ks: "distinct ks" "key \<notin> set ks"
    and st: "pass2_state P o1 ks L = Inr L2"
    and c: "cell_at L2 key = Some c" and b: "boundary c"
  shows "\<exists>v c'. next_dm c = Some v \<and> stepTwo P L2 c = Inr c'
           \<and> 1 \<le> length (refs_where L2 attached (nbrs L2 c))
           \<and> attachmentFlag c'
               = attach_rule P (length (refs_where L2 attached (nbrs L2 c)))
                   (boundaryMass (freezingStep P (c\<lparr>diffusiveMass := v\<rparr>)))
                   (summed_diff L2 (freezingStep P (c\<lparr>diffusiveMass := v\<rparr>)))"
proof -
  from pass1_char [OF o1(1), of L] obtain L1 where
    L1: "pass1 o1 L = Inr L1" "same_view L L1" "map fst (cells L1) = map fst (cells L)"
        "\<And>k. rel_option (\<lambda>c c'. if k \<in> set o1 then c' = stepOne L c else c' = c)
               (cell_at L k) (cell_at L1 k)"
    by blast
  have r1: "all_ready L1"
    unfolding all_ready_def
  proof (intro allI impI)
    fix k c assume c: "cell_at L1 k = Some c"
    then have "k \<in> set o1"
      using cell_at_keys [OF c] L1(3) o1(2) by simp
    with L1(4) [of k] c show "ready c"
      by (cases "cell_at L k") (simp_all add: stepOne_ready)
  qed
  from st L1(1) have st2: "pass2 P ks L1 = Inr L2"
    by (simp add: pass2_state_def)
  from pass2_char [OF ks(1) r1, of P] obtain L2' where
    "pass2 P ks L1 = Inr L2'"
    "\<And>k. rel_option (\<lambda>c c'. if k \<in> set ks then pass2_rel P c c' else c' = c)
               (cell_at L1 k) (cell_at L2' k)"
    by blast
  with st2 have
    L2: "\<And>k. rel_option (\<lambda>c c'. if k \<in> set ks then pass2_rel P c c' else c' = c)
               (cell_at L1 k) (cell_at L2 k)"
    by simp
  from L2 [of key] ks(2) c have c1: "cell_at L1 key = Some c"
    by (cases "cell_at L1 key") simp_all
  then have "key \<in> set o1"
    using cell_at_keys [OF c1] L1(3) o1(2) by simp
  with L1(4) [of key] c1 obtain c0 where
    c0: "cell_at L key = Some c0" "c = stepOne L c0"
    by (cases "cell_at L key") simp_all
  have att: "rel_option (\<lambda>c c'. attached c' = attached c) (cell_at L k) (cell_at L2 k)" for k
  proof -
    have "rel_option (\<lambda>c c'. attached c' = attached c) (cell_at L k) (cell_at L1 k)"
      using L1(2) [unfolded same_view_def, rule_format, of k]
      by (cases "cell_at L k"; cases "cell_at L1 k"; simp)
    moreover have "rel_option (\<lambda>c c'. attached c' = attached c) (cell_at L1 k) (cell_at L2 k)"
      using L2 [of k]
      by (cases "cell_at L1 k"; cases "cell_at L2 k"; simp add: pass2_rel_def split: if_splits)
    ultimately show ?thesis
      by (cases "cell_at L k"; cases "cell_at L1 k"; cases "cell_at L2 k"; simp)
  qed
  from b c0(2) have na: "\<not> attached c0" and ex: "list_ex attached (objs L (nbrs L c0))"
    by (simp_all add: stepOne_eq split: if_splits)
  have n2: "nbrs L2 c = nbrs L c0"
    using na c0(2) by (simp add: stepOne_eq nbrs_def neighbors_def)
  have an: "attachedNeighbors c = Some (refs_where L2 attached (nbrs L2 c))"
    using na ex c0(2) refs_where_same_attached [of L L2 "nbrs L c0", OF att]
    by (simp add: n2) (simp add: stepOne_eq)
  have k1: "1 \<le> length (refs_where L2 attached (nbrs L2 c))"
    using ex refs_where_same_attached [of L L2 "nbrs L c0", OF att]
    by (cases "refs_where L attached (nbrs L c0)") (simp_all add: list_ex_refs_where n2)
  obtain v where v: "next_dm c = Some v"
    using stepOne_ready [of L c0] c0(2) by (auto simp: ready_def)
  from stepTwo_flag [OF v b an k1, of P L2] v k1 show ?thesis by blast
qed

section \<open>The neighbours are the adjacent cells\<close>

lemma constructor_well_formed:
  assumes "constructor P n = Inr L"
  shows "well_formed L"
proof -
  have n0: "0 \<le> n"
    using assms by (simp add: constructor_eq split: if_splits)
  from constructor_cells [OF n0, of P] assms have d: "distinct (map fst (cells L))"
    and c: "\<And>q r. cell_at L (q, r)
                      = (if \<bar>q\<bar> \<le> n \<and> \<bar>r\<bar> \<le> n \<and> \<bar>q + r\<bar> \<le> n
                         then Some ((new_cell P q r)\<lparr>attached := (q = 0 \<and> r = 0)\<rparr>)
                         else None)"
    by auto
  have "cell_q c' = fst k \<and> cell_r c' = snd k \<and> neighbors_memo c' = None"
    if "cell_at L k = Some c'" for k c'
    using that c [of "fst k" "snd k"]
    by (auto simp: new_cell_def split: if_splits)
  with d show ?thesis
    unfolding well_formed_def by auto
qed

lemma stepThree_frame:
  "cell_q (stepThree P u c) = cell_q c"
  "cell_r (stepThree P u c) = cell_r c"
  "neighbors_memo (stepThree P u c) = neighbors_memo c"
  by (simp_all add: stepThree_def noiseStep_def attach_def Let_def)

lemma step_well_formed:
  assumes wf: "well_formed L"
  shows "\<exists>L'. step P rnd L = Inr L' \<and> well_formed L'"
proof -
  from wf have d: "distinct (map fst (cells L))"
    by (simp add: well_formed_def)
  from step_char [OF d, of P rnd] obtain L' where
    L': "step P rnd L = Inr L'" "map fst (cells L') = map fst (cells L)"
        "\<And>k. rel_option (\<lambda>c c'. \<exists>c2. pass2_rel P (stepOne L c) c2
                                  \<and> c' = stepThree P (rnd k) c2)
               (cell_at L k) (cell_at L' k)"
    by blast
  have same: "(cell_at L' j = None) = (cell_at L j = None)" for j
    using L'(3) [of j] by (cases "cell_at L j"; cases "cell_at L' j"; simp)
  have adj: "adjacent L' k = adjacent L k" for k
    by (rule adjacent_cong) (rule same)
  have "cell_q c' = fst k \<and> cell_r c' = snd k
        \<and> (\<forall>ns. neighbors_memo c' = Some ns \<longrightarrow> ns = adjacent L' k)"
    if c': "cell_at L' k = Some c'" for k c'
  proof -
    from c' L'(3) [of k] obtain c c2 where
      c: "cell_at L k = Some c" and c2: "pass2_rel P (stepOne L c) c2"
      and e: "c' = stepThree P (rnd k) c2"
      by (cases "cell_at L k") auto
    from wf c have q: "cell_q c = fst k" "cell_r c = snd k"
      and m: "\<And>ns. neighbors_memo c = Some ns \<Longrightarrow> ns = adjacent L k"
      unfolding well_formed_def by blast+
    have m1: "neighbors_memo (stepOne L c) = Some ns \<Longrightarrow> ns = adjacent L k" for ns
      using m nbrs_adjacent [OF wf c]
      by (simp add: stepOne_eq split: if_splits)
    from c2 e q m1 show ?thesis
      by (simp add: pass2_rel_def stepThree_frame stepOne_eq adj split: if_splits)
  qed
  with d L'(2) have "well_formed L'"
    unfolding well_formed_def by auto
  with L'(1) show ?thesis by blast
qed

lemma steps_well_formed:
  assumes "well_formed L"
  shows "\<exists>L'. steps P rnds L = Inr L' \<and> well_formed L'"
  using assms
proof (induction rnds arbitrary: L)
  case Nil
  then show ?case by simp
next
  case (Cons rnd rnds)
  from step_well_formed [OF Cons.prems, of P rnd] obtain L1 where
    "step P rnd L = Inr L1" "well_formed L1"
    by blast
  with Cons.IH [of L1] show ?case by simp
qed

section \<open>A run of the program and the visiting order\<close>

lemma grown_keys_facts:
  "distinct grown_keys" "set grown_keys = set (map fst (cells grown_lattice))"
  "distinct (take 4 grown_keys)" "(- 1, 0) \<notin> set (take 4 grown_keys)"
  by (simp_all add: grown_keys_def grown_lattice_def grown_cell_def)

lemma grown_pass2_eval:
  "(case pass2_state tuned_params grown_keys (take 4 grown_keys) grown_lattice of
      Inl e \<Rightarrow> False
    | Inr L2 \<Rightarrow>
        (case cell_at L2 (- 1, 0) of
           None \<Rightarrow> False
         | Some c \<Rightarrow>
             boundary c
             \<and> (case next_dm c of
                    None \<Rightarrow> False
                  | Some v \<Rightarrow>
                      length (refs_where L2 attached (nbrs L2 c)) = 3
                      \<and> boundaryMass (freezingStep tuned_params (c\<lparr>diffusiveMass := v\<rparr>))
                          = 1851 / 3136
                      \<and> summed_diff L2 (freezingStep tuned_params (c\<lparr>diffusiveMass := v\<rparr>))
                          = 3061 / 2240)
             \<and> (case stepTwo tuned_params L2 c of Inl e \<Rightarrow> False
                  | Inr c' \<Rightarrow> attachmentFlag c')))"
  by code_simp

theorem attachment_decision_in_pass2_witness:
  "distinct grown_keys \<and> set grown_keys = set (map fst (cells grown_lattice))
   \<and> distinct (take 4 grown_keys) \<and> (- 1, 0) \<notin> set (take 4 grown_keys)
   \<and> (\<exists>L2 c. pass2_state tuned_params grown_keys (take 4 grown_keys) grown_lattice
                 = Inr L2
          \<and> cell_at L2 (- 1, 0) = Some c \<and> boundary c
          \<and> (\<exists>v c'. next_dm c = Some v \<and> stepTwo tuned_params L2 c = Inr c'
                 \<and> length (refs_where L2 attached (nbrs L2 c)) = 3
                 \<and> boundaryMass (freezingStep tuned_params (c\<lparr>diffusiveMass := v\<rparr>))
                     = 1851 / 3136
                 \<and> summed_diff L2 (freezingStep tuned_params (c\<lparr>diffusiveMass := v\<rparr>))
                     = 3061 / 2240
                 \<and> attachmentFlag c'
                 \<and> attach_rule tuned_params 3 (1851 / 3136) (3061 / 2240)))"
proof -
  from grown_pass2_eval obtain L2 where
    st: "pass2_state tuned_params grown_keys (take 4 grown_keys) grown_lattice = Inr L2"
    and r1: "case cell_at L2 (- 1, 0) of
               None \<Rightarrow> False
             | Some c \<Rightarrow>
                 boundary c
                 \<and> (case next_dm c of
                        None \<Rightarrow> False
                      | Some v \<Rightarrow>
                          length (refs_where L2 attached (nbrs L2 c)) = 3
                          \<and> boundaryMass (freezingStep tuned_params (c\<lparr>diffusiveMass := v\<rparr>))
                              = 1851 / 3136
                          \<and> summed_diff L2 (freezingStep tuned_params (c\<lparr>diffusiveMass := v\<rparr>))
                              = 3061 / 2240)
                 \<and> (case stepTwo tuned_params L2 c of Inl e \<Rightarrow> False
                      | Inr c' \<Rightarrow> attachmentFlag c')"
    by (cases "pass2_state tuned_params grown_keys (take 4 grown_keys) grown_lattice")
       simp_all
  from r1 obtain c where c: "cell_at L2 (- 1, 0) = Some c" and b: "boundary c"
    and r2: "case next_dm c of
               None \<Rightarrow> False
             | Some v \<Rightarrow>
                 length (refs_where L2 attached (nbrs L2 c)) = 3
                 \<and> boundaryMass (freezingStep tuned_params (c\<lparr>diffusiveMass := v\<rparr>))
                     = 1851 / 3136
                 \<and> summed_diff L2 (freezingStep tuned_params (c\<lparr>diffusiveMass := v\<rparr>))
                     = 3061 / 2240"
    and r3: "case stepTwo tuned_params L2 c of Inl e \<Rightarrow> False | Inr c' \<Rightarrow> attachmentFlag c'"
    by (cases "cell_at L2 (- 1, 0)") simp_all
  from r2 obtain v where v: "next_dm c = Some v"
    and k: "length (refs_where L2 attached (nbrs L2 c)) = 3"
    and bm: "boundaryMass (freezingStep tuned_params (c\<lparr>diffusiveMass := v\<rparr>)) = 1851 / 3136"
    and sd: "summed_diff L2 (freezingStep tuned_params (c\<lparr>diffusiveMass := v\<rparr>)) = 3061 / 2240"
    by (cases "next_dm c") simp_all
  from r3 obtain c' where s2: "stepTwo tuned_params L2 c = Inr c'" and f: "attachmentFlag c'"
    by (cases "stepTwo tuned_params L2 c") simp_all
  from attachment_decision_in_pass2 [OF grown_keys_facts st c b] v s2 f k bm sd
  have "attach_rule tuned_params 3 (1851 / 3136) (3061 / 2240)"
    by auto
  with grown_keys_facts st c b v s2 f k bm sd show ?thesis by blast
qed

text \<open>
  The run that reaches \<^const>\<open>grown_lattice\<close>, and the step after it in two visiting
  orders: the order of the Map in all three passes, as the source has it, and the same with
  Pass 2 alone reversed.
\<close>

lemma grown_reached:
  "(case constructor tuned_params 2 of
      Inl e \<Rightarrow> Inl e
    | Inr L \<Rightarrow> steps tuned_params [first_draws, no_noise] L) = Inr grown_lattice"
  by code_simp

lemma grown_step_code_order:
  "attached_after (step tuned_params no_noise grown_lattice) (- 1, 0) = Some True
   \<and> attached_after (step tuned_params no_noise grown_lattice) (1, 0) = Some False"
  by code_simp

lemma grown_step_reversed:
  "attached_after (step_in tuned_params no_noise grown_keys (rev grown_keys) grown_keys
                     grown_lattice) (- 1, 0) = Some False
   \<and> attached_after (step_in tuned_params no_noise grown_keys (rev grown_keys) grown_keys
                     grown_lattice) (1, 0) = Some True"
  by code_simp

text \<open>
  C2 fails on the code: the outcome of a step depends on the order in which Pass 2 visits
  the cells. \<^const>\<open>grown_lattice\<close> is reached from a new lattice of radius 2 in two
  steps. In the next step, visiting in the order of the Map, \<open>(- 1, 0)\<close> attaches and
  its mirror image \<open>(1, 0)\<close>, which holds the same masses, does not; with Pass 2 run in
  the reverse order it is the other way round. Both cells have three attached neighbours,
  and \<^verbatim>\<open>attachmentStep\<close> sums the neighbours' \<^verbatim>\<open>diffusiveMass\<close> in Pass 2, where
  the \<^verbatim>\<open>stepTwo\<close> of every neighbour visited earlier in the same pass has already
  overwritten it.
\<close>

theorem step_depends_on_visiting_order:
  "(case constructor tuned_params 2 of
      Inl e \<Rightarrow> Inl e
    | Inr L \<Rightarrow> steps tuned_params [first_draws, no_noise] L) = Inr grown_lattice
   \<and> attached_after (step tuned_params no_noise grown_lattice) (- 1, 0) = Some True
   \<and> attached_after (step tuned_params no_noise grown_lattice) (1, 0) = Some False
   \<and> attached_after (step_in tuned_params no_noise grown_keys (rev grown_keys) grown_keys
                     grown_lattice) (- 1, 0) = Some False
   \<and> attached_after (step_in tuned_params no_noise grown_keys (rev grown_keys) grown_keys
                     grown_lattice) (1, 0) = Some True
   \<and> step tuned_params no_noise grown_lattice
       \<noteq> step_in tuned_params no_noise grown_keys (rev grown_keys) grown_keys grown_lattice"
proof -
  have "step tuned_params no_noise grown_lattice
        \<noteq> step_in tuned_params no_noise grown_keys (rev grown_keys) grown_keys grown_lattice"
    using grown_step_code_order grown_step_reversed by auto
  with grown_reached grown_step_code_order grown_step_reversed show ?thesis by simp
qed

section \<open>Rounding to the nearest double\<close>

text \<open>
  \<open>expo x\<close> is the exponent of the binade of \<open>x\<close>, so \<open>ulp x\<close> is the spacing of
  the doubles there; rounding moves a value by at most half a spacing, which is at most
  \<open>2\<^sup>-\<^sup>5\<^sup>3\<close> of the value or, below the normal range, \<open>tiny\<close>.
\<close>

lemma overflow_threshold_eq: "overflow_threshold = 2 ^ 1024 - 2 ^ 970"
  by (simp add: overflow_threshold_def)

lemma literal_1e308:
  "(100000000000000001097906362944045541740492309677311846336810682903157585404911491537163328978494688899061249669721172515611590283743140088328307009198146046031271664502933027185697489699588559043338384466165001178426897626212945177628091195786707458122783970171784415105291802893207873272974885715430223118336 :: rat)
     = 5010420900022432 * 2 ^ 971
   \<and> \<bar>10 ^ 308 - (5010420900022432 * 2 ^ 971 :: rat)\<bar> < 2 ^ 970"
  by simp

lemma round_even_close: "\<bar>of_int (round_even x) - x\<bar> \<le> 1 / 2"
proof -
  have "of_int \<lfloor>x\<rfloor> \<le> x" "x < of_int \<lfloor>x\<rfloor> + 1"
    by linarith+
  then show ?thesis
    by (auto simp: round_even_def Let_def)
qed

lemma round_even_nonneg: "0 \<le> x \<Longrightarrow> 0 \<le> round_even x"
  by (auto simp: round_even_def Let_def)

lemma ulp_pos: "0 < ulp x"
  by (simp add: ulp_def)

lemma expo_le:
  assumes "x \<noteq> 0"
  shows "2 powi expo x \<le> \<bar>x\<bar>"
proof (cases "1 \<le> \<bar>x\<bar>")
  case True
  then have p: "0 < \<lfloor>\<bar>x\<bar>\<rfloor>" by linarith
  from bitlen_bounds [OF p] have "2 ^ nat (bitlen \<lfloor>\<bar>x\<bar>\<rfloor> - 1) \<le> \<lfloor>\<bar>x\<bar>\<rfloor>" by simp
  then have "(of_int (2 ^ nat (bitlen \<lfloor>\<bar>x\<bar>\<rfloor> - 1)) :: rat) \<le> of_int \<lfloor>\<bar>x\<bar>\<rfloor>"
    by (simp only: of_int_le_iff)
  also have "\<dots> \<le> \<bar>x\<bar>" by linarith
  finally have "(2::rat) ^ nat (bitlen \<lfloor>\<bar>x\<bar>\<rfloor> - 1) \<le> \<bar>x\<bar>" by simp
  moreover have "1 \<le> bitlen \<lfloor>\<bar>x\<bar>\<rfloor>"
    using p by (simp add: bitlen_alt_def)
  ultimately show ?thesis
    using True by (simp add: expo_def power_int_def)
next
  case False
  let ?n = "\<lceil>1 / \<bar>x\<bar>\<rceil> - 1"
  from False assms have x: "0 < \<bar>x\<bar>" "\<bar>x\<bar> < 1" by simp_all
  then have "1 < 1 / \<bar>x\<bar>" by simp
  then have p: "0 < ?n" by linarith
  from bitlen_bounds [OF p] have "?n < 2 ^ nat (bitlen ?n)" by simp
  then have "?n + 1 \<le> 2 ^ nat (bitlen ?n)" by simp
  then have "(of_int (?n + 1) :: rat) \<le> of_int (2 ^ nat (bitlen ?n))"
    by (simp only: of_int_le_iff)
  then have "(of_int \<lceil>1 / \<bar>x\<bar>\<rceil> :: rat) \<le> 2 ^ nat (bitlen ?n)" by simp
  moreover have "1 / \<bar>x\<bar> \<le> of_int \<lceil>1 / \<bar>x\<bar>\<rceil>" by (rule le_of_int_ceiling)
  ultimately have "1 / \<bar>x\<bar> \<le> 2 ^ nat (bitlen ?n)" by (rule order_trans [rotated])
  then have "1 / 2 ^ nat (bitlen ?n) \<le> \<bar>x\<bar>"
    using x(1) by (simp add: field_simps)
  moreover have "1 \<le> bitlen ?n"
    using p by (simp add: bitlen_alt_def)
  ultimately show ?thesis
    using False by (simp add: expo_def power_int_def field_simps)
qed

lemma expo_gt:
  assumes "x \<noteq> 0"
  shows "\<bar>x\<bar> < 2 powi (expo x + 1)"
proof (cases "1 \<le> \<bar>x\<bar>")
  case True
  then have p: "0 < \<lfloor>\<bar>x\<bar>\<rfloor>" by linarith
  from bitlen_bounds [OF p] have "\<lfloor>\<bar>x\<bar>\<rfloor> + 1 \<le> 2 ^ nat (bitlen \<lfloor>\<bar>x\<bar>\<rfloor>)" by simp
  then have "(of_int (\<lfloor>\<bar>x\<bar>\<rfloor> + 1) :: rat) \<le> of_int (2 ^ nat (bitlen \<lfloor>\<bar>x\<bar>\<rfloor>))"
    by (simp only: of_int_le_iff)
  moreover have "\<bar>x\<bar> < of_int (\<lfloor>\<bar>x\<bar>\<rfloor> + 1)" by linarith
  ultimately have "\<bar>x\<bar> < 2 ^ nat (bitlen \<lfloor>\<bar>x\<bar>\<rfloor>)" by simp
  moreover have "0 \<le> bitlen \<lfloor>\<bar>x\<bar>\<rfloor>" by (rule bitlen_nonneg)
  ultimately show ?thesis
    using True by (simp add: expo_def power_int_def)
next
  case False
  let ?n = "\<lceil>1 / \<bar>x\<bar>\<rceil> - 1"
  from False assms have x: "0 < \<bar>x\<bar>" "\<bar>x\<bar> < 1" by simp_all
  then have "1 < 1 / \<bar>x\<bar>" by simp
  then have p: "0 < ?n" by linarith
  then have b1: "1 \<le> bitlen ?n" by (simp add: bitlen_alt_def)
  from bitlen_bounds [OF p] have "2 ^ nat (bitlen ?n - 1) \<le> ?n" by simp
  then have "(of_int (2 ^ nat (bitlen ?n - 1)) :: rat) \<le> of_int ?n"
    by (simp only: of_int_le_iff)
  moreover have "of_int ?n < 1 / \<bar>x\<bar>" by linarith
  ultimately have "2 ^ nat (bitlen ?n - 1) < 1 / \<bar>x\<bar>" by simp
  then have "\<bar>x\<bar> < 1 / 2 ^ nat (bitlen ?n - 1)"
    using x(1) by (simp add: field_simps)
  moreover have "- bitlen ?n + 1 \<le> 0" "nat (- (- bitlen ?n + 1)) = nat (bitlen ?n - 1)"
    using b1 by simp_all
  ultimately show ?thesis
    using False b1 by (simp add: expo_def power_int_def field_simps)
qed

lemma ulp_le:
  assumes "x \<noteq> 0"
  shows "ulp x \<le> \<bar>x\<bar> / 2 ^ 52 \<or> ulp x = 1 / 2 ^ 1074"
proof (cases "- 1022 \<le> expo x")
  case True
  then have "ulp x = 2 powi (expo x - 52)"
    by (simp add: ulp_def max_def)
  also have "\<dots> = 2 powi expo x / 2 ^ 52"
    by (simp add: power_int_diff)
  also have "\<dots> \<le> \<bar>x\<bar> / 2 ^ 52"
    using expo_le [OF assms] by (simp add: divide_right_mono)
  finally show ?thesis by simp
next
  case False
  then have "ulp x = 2 powi (- 1074)"
    by (simp add: ulp_def max_def)
  then show ?thesis
    by (simp add: power_int_def field_simps)
qed

lemma round_to_ulp:
  "\<bar>of_int (round_even (x / ulp x)) * ulp x - x\<bar> \<le> ulp x / 2"
proof -
  have "of_int (round_even (x / ulp x)) * ulp x - x
        = (of_int (round_even (x / ulp x)) - x / ulp x) * ulp x"
    using ulp_pos [of x] by (simp add: field_simps)
  then have "\<bar>of_int (round_even (x / ulp x)) * ulp x - x\<bar>
             = \<bar>of_int (round_even (x / ulp x)) - x / ulp x\<bar> * ulp x"
    using ulp_pos [of x] by (simp add: abs_mult)
  also have "\<dots> \<le> 1 / 2 * ulp x"
    using round_even_close [of "x / ulp x"] ulp_pos [of x]
    by (intro mult_right_mono) simp_all
  finally show ?thesis by simp
qed

lemma fl_close:
  assumes "0 \<le> x" and "x < overflow_threshold"
  shows "\<exists>y. fl x = Fin y \<and> 0 \<le> y \<and> \<bar>y - x\<bar> \<le> x / 2 ^ 53 + 1 / 2 ^ 1075"
proof (cases "x = 0")
  case True
  then show ?thesis by (simp add: fl_def)
next
  case False
  let ?y = "of_int (round_even (x / ulp x)) * ulp x"
  have f: "fl x = Fin ?y"
    using False assms by (simp add: fl_def)
  have "0 \<le> round_even (x / ulp x)"
    using assms(1) ulp_pos [of x] by (intro round_even_nonneg) simp
  then have n: "0 \<le> ?y"
    using ulp_pos [of x] by simp
  have "ulp x / 2 \<le> x / 2 ^ 53 + 1 / 2 ^ 1075"
    using ulp_le [OF False] assms(1) by auto
  with round_to_ulp [of x] have "\<bar>?y - x\<bar> \<le> x / 2 ^ 53 + 1 / 2 ^ 1075"
    by linarith
  with f n show ?thesis by blast
qed

lemma fl_not_negative: "0 \<le> x \<Longrightarrow> not_negative (fl x)"
  using ulp_pos [of x]
  by (auto simp: fl_def not_negative_def zero_number_def round_even_nonneg)

section \<open>No mass is ever negative\<close>

lemma not_negative_simps [simp]:
  "not_negative NaN" "not_negative PInf" "\<not> not_negative NInf"
  "not_negative (Fin x) = (0 \<le> x)" "not_negative 0"
  by (simp_all add: not_negative_def zero_number_def)

lemma not_negative_add: "not_negative a \<Longrightarrow> not_negative b \<Longrightarrow> not_negative (a + b)"
  by (cases a; cases b) (simp_all add: fl_not_negative)

lemma not_negative_mult: "not_negative a \<Longrightarrow> not_negative b \<Longrightarrow> not_negative (a * b)"
  by (cases a; cases b) (simp_all add: fl_not_negative)

lemma not_negative_divide: "not_negative a \<Longrightarrow> not_negative b \<Longrightarrow> not_negative (a / b)"
  by (cases a; cases b) (simp_all add: fl_not_negative)

lemma not_negative_one_minus:
  "0 \<le> k \<Longrightarrow> k \<le> 1 \<Longrightarrow> not_negative (1 - k)"
  by (cases k) (simp_all add: minus_number_def one_number_def zero_number_def fl_not_negative)

lemma not_negative_of_le: "0 \<le> k \<Longrightarrow> not_negative k"
  by (simp add: not_negative_def)

lemma not_negative_max: "not_negative (Math_max 0 x)"
  by (cases x) (simp_all add: Math_max_def zero_number_def)

lemma not_negative_length: "not_negative (Fin (of_nat n) + 1)"
  by (simp add: one_number_def fl_not_negative)

lemma not_negative_fold:
  assumes "not_negative a" and "\<And>n. n \<in> set xs \<Longrightarrow> not_negative (h n)"
  shows "not_negative (fold (\<lambda>n acc. acc + h n) xs a)"
  using assms by (induction xs arbitrary: a) (simp_all add: not_negative_add)

lemma diffusionCalc_d_eq:
  "diffusionCalc_d L c =
     (if attached c then (diffusiveMass c, c)
      else (fold (\<lambda>n acc. acc + (if attached n then diffusiveMass c else diffusiveMass n))
                 (objs L (nbrs L c)) (diffusiveMass c)
              / (Fin (of_nat (length (nbrs L c))) + 1),
            c\<lparr>age := age c + 1, neighbors_memo := Some (nbrs L c)\<rparr>))"
  by (simp add: diffusionCalc_d_def neighbors_eq Let_def cong: if_cong)

lemma stepOne_d_eq:
  "stepOne_d L c =
     (if attached c then c\<lparr>boundary := False, next_dm := Some (diffusiveMass c)\<rparr>
      else c\<lparr>neighbors_memo := Some (nbrs L c),
             boundary := list_ex attached (objs L (nbrs L c)),
             attachedNeighbors :=
               (if list_ex attached (objs L (nbrs L c))
                then Some (refs_where L attached (nbrs L c)) else attachedNeighbors c),
             age := age c + 1,
             next_dm := Some (fst (diffusionCalc_d L c))\<rparr>)"
  by (simp add: stepOne_d_def updateBoundary_eq diffusionCalc_d_eq neighbors_eq Let_def
        cong: if_cong)

lemma diffusionCalc_d_not_negative:
  assumes "\<And>k n. cell_at L k = Some n \<Longrightarrow> not_negative (diffusiveMass n)"
    and "not_negative (diffusiveMass c)"
  shows "not_negative (fst (diffusionCalc_d L c))"
proof -
  have "not_negative (if attached n then diffusiveMass c else diffusiveMass n)"
    if "n \<in> set (objs L ns)" for n ns
    using objs_cell [OF that] assms by auto
  then show ?thesis
    using assms(2)
    by (simp add: diffusionCalc_d_eq not_negative_divide not_negative_length
          not_negative_fold)
qed

lemma stepOne_d_prepared:
  assumes "\<And>k n. cell_at L k = Some n \<Longrightarrow> masses_not_negative n"
    and "masses_not_negative c"
  shows "prepared (stepOne_d L c)"
proof -
  have "not_negative (fst (diffusionCalc_d L c))"
    by (rule diffusionCalc_d_not_negative)
       (use assms in \<open>auto simp: masses_not_negative_def\<close>)
  with assms(2) show ?thesis
    by (simp add: prepared_def ready_def masses_not_negative_def stepOne_d_eq)
qed

lemma freezingStep_d_not_negative:
  assumes "params_ok_d P" and "masses_not_negative c"
  shows "masses_not_negative (freezingStep_d P c)"
  using assms
  by (simp add: freezingStep_d_def masses_not_negative_def params_ok_d_def Let_def
        not_negative_add not_negative_mult not_negative_one_minus not_negative_of_le)

lemma meltingStep_d_not_negative:
  assumes "params_ok_d P" and "masses_not_negative c"
  shows "masses_not_negative (meltingStep_d P c)"
  using assms
  by (simp add: meltingStep_d_def masses_not_negative_def params_ok_d_def Let_def
        not_negative_add not_negative_mult not_negative_one_minus not_negative_of_le)

lemma attachmentStep_d_ok:
  assumes "boundary c \<longrightarrow> attachedNeighbors c \<noteq> None"
  shows "\<exists>b. attachmentStep_d P L c = Inr (b, c)
           \<or> attachmentStep_d P L c = Inr (b, c\<lparr>neighbors_memo := Some (nbrs L c)\<rparr>)"
  using assms
  by (auto simp: attachmentStep_d_def neighbors_eq Let_def split: option.splits)

lemma freezingStep_d_frame:
  "boundary (freezingStep_d P c) = boundary c"
  "attachedNeighbors (freezingStep_d P c) = attachedNeighbors c"
  "neighbors_memo (freezingStep_d P c) = neighbors_memo c"
  "next_dm (freezingStep_d P c) = next_dm c"
  by (simp_all add: freezingStep_d_def Let_def)

lemma meltingStep_d_frame:
  "boundary (meltingStep_d P c) = boundary c"
  "attachedNeighbors (meltingStep_d P c) = attachedNeighbors c"
  "neighbors_memo (meltingStep_d P c) = neighbors_memo c"
  "next_dm (meltingStep_d P c) = next_dm c"
  by (simp_all add: meltingStep_d_def Let_def)

lemma stepTwo_d_prepared:
  assumes ok: "params_ok_d P" and p: "prepared c"
  shows "\<exists>c'. stepTwo_d P L c = Inr c' \<and> prepared c'"
proof -
  from p obtain v where v: "next_dm c = Some v" and nv: "not_negative v"
    by (auto simp: prepared_def ready_def)
  let ?c3 = "freezingStep_d P (c\<lparr>diffusiveMass := v, attachmentFlag := attached c\<rparr>)"
  have m0: "masses_not_negative (c\<lparr>diffusiveMass := v, attachmentFlag := attached c\<rparr>)"
    using p nv by (simp add: prepared_def masses_not_negative_def)
  have m3: "masses_not_negative ?c3"
    by (rule freezingStep_d_not_negative [OF ok m0])
  have r3: "boundary ?c3 \<longrightarrow> attachedNeighbors ?c3 \<noteq> None"
    using p by (simp add: freezingStep_d_frame prepared_def ready_def)
  from attachmentStep_d_ok [OF r3, of P L] obtain b c4 where
    a: "attachmentStep_d P L ?c3 = Inr (b, c4)"
    and c4: "c4 = ?c3 \<or> c4 = ?c3\<lparr>neighbors_memo := Some (nbrs L ?c3)\<rparr>"
    by blast
  let ?c5 = "meltingStep_d P (c4\<lparr>attachmentFlag := b\<rparr>)"
  have s: "stepTwo_d P L c = Inr ?c5"
    using v a by (simp add: stepTwo_d_def Let_def)
  have m4: "masses_not_negative (c4\<lparr>attachmentFlag := b\<rparr>)"
    using m3 c4 by (auto simp: masses_not_negative_def)
  have m5: "masses_not_negative ?c5"
    by (rule meltingStep_d_not_negative [OF ok m4])
  have "ready ?c5" "next_dm ?c5 = Some v"
    using p v c4
    by (auto simp: meltingStep_d_frame freezingStep_d_frame prepared_def ready_def)
  with m5 nv s show ?thesis
    by (simp add: prepared_def)
qed

lemma stepThree_d_not_negative:
  assumes "masses_not_negative c"
  shows "masses_not_negative (stepThree_d P u c)"
  using assms
  by (simp add: stepThree_d_def noiseStep_d_def attach_d_def masses_not_negative_def Let_def
        not_negative_add not_negative_max)

lemma all_not_negative_iff:
  assumes "distinct (map fst (cells L))"
  shows "all_not_negative L = cells_not_negative L"
  by (auto simp: all_not_negative_def cells_not_negative_def list_all_iff
        cell_at_entry [OF assms])

lemma prepared_not_negative: "prepared c \<Longrightarrow> masses_not_negative c"
  by (simp add: prepared_def)

lemma cells_not_negativeD:
  "cells_not_negative L \<Longrightarrow> cell_at L k = Some c \<Longrightarrow> masses_not_negative c"
  unfolding cells_not_negative_def by blast

lemma cells_preparedD: "cells_prepared L \<Longrightarrow> cell_at L k = Some c \<Longrightarrow> prepared c"
  unfolding cells_prepared_def by blast

lemma cells_not_negative_set_cell:
  "cells_not_negative L \<Longrightarrow> masses_not_negative c \<Longrightarrow> cells_not_negative (set_cell k c L)"
  by (simp add: cells_not_negative_def cell_at_set_cell)

lemma cells_prepared_set_cell:
  "cells_prepared L \<Longrightarrow> prepared c \<Longrightarrow> cells_prepared (set_cell k c L)"
  by (simp add: cells_prepared_def cell_at_set_cell)

lemma pass1_d_prepared:
  assumes d: "distinct (map fst (cells L))" and nn: "cells_not_negative L"
  shows "\<exists>L1. pass1_d (map fst (cells L)) L = Inr L1
           \<and> map fst (cells L1) = map fst (cells L) \<and> cells_prepared L1"
proof -
  have "\<exists>L1. forEach (visit (\<lambda>k L c. Inr (stepOne_d L c))) (map fst (cells L)) L = Inr L1
          \<and> cells_not_negative L1
          \<and> lattice_size L1 = lattice_size L
          \<and> map fst (cells L1) = map fst (cells L)
          \<and> (\<forall>k. rel_option (\<lambda>c c'. if k \<in> set (map fst (cells L)) then prepared c' else c' = c)
                              (cell_at L k) (cell_at L1 k))"
  proof (rule forEach_visit_rule [OF d, where G = cells_not_negative])
    show "cells_not_negative L" by (rule nn)
  next
    fix L' :: "number CrystalLattice" and k c
    assume g: "cells_not_negative L'" and c: "cell_at L' k = Some c"
    have p: "prepared (stepOne_d L' c)"
      by (rule stepOne_d_prepared) (use g c in \<open>blast intro: cells_not_negativeD\<close>)+
    then have "cells_not_negative (set_cell k (stepOne_d L' c) L')"
      using g by (intro cells_not_negative_set_cell prepared_not_negative)
    with p show "\<exists>c'. Inr (stepOne_d L' c) = Inr c' \<and> prepared c'
                   \<and> cells_not_negative (set_cell k c' L')"
      by simp
  qed
  then obtain L1 where
    L1: "pass1_d (map fst (cells L)) L = Inr L1" "map fst (cells L1) = map fst (cells L)"
        "\<And>k. rel_option (\<lambda>c c'. if k \<in> set (map fst (cells L)) then prepared c' else c' = c)
               (cell_at L k) (cell_at L1 k)"
    unfolding pass1_d_def by blast
  have "prepared c'" if c': "cell_at L1 k = Some c'" for k c'
  proof -
    have "k \<in> set (map fst (cells L))"
      using cell_at_keys [OF c'] L1(2) by simp
    with L1(3) [of k] c' show ?thesis
      by (cases "cell_at L k") simp_all
  qed
  then have "cells_prepared L1"
    by (simp add: cells_prepared_def)
  with L1(1,2) show ?thesis by blast
qed

lemma pass2_d_prepared:
  assumes ok: "params_ok_d P" and d: "distinct ks" and p: "cells_prepared L"
  shows "\<exists>L2. pass2_d P ks L = Inr L2 \<and> map fst (cells L2) = map fst (cells L)
           \<and> cells_prepared L2"
proof -
  have "\<exists>L2. forEach (visit (\<lambda>k L c. stepTwo_d P L c)) ks L = Inr L2
          \<and> cells_prepared L2
          \<and> lattice_size L2 = lattice_size L
          \<and> map fst (cells L2) = map fst (cells L)
          \<and> (\<forall>k. rel_option (\<lambda>c c'. if k \<in> set ks then True else c' = c)
                              (cell_at L k) (cell_at L2 k))"
  proof (rule forEach_visit_rule [OF d, where G = cells_prepared])
    show "cells_prepared L" by (rule p)
  next
    fix L' :: "number CrystalLattice" and k c
    assume g: "cells_prepared L'" and c: "cell_at L' k = Some c"
    then have "prepared c" by (rule cells_preparedD)
    from stepTwo_d_prepared [OF ok this, of L'] obtain c' where
      c': "stepTwo_d P L' c = Inr c'" "prepared c'"
      by blast
    then have "cells_prepared (set_cell k c' L')"
      using g by (intro cells_prepared_set_cell)
    with c' show "\<exists>c'. stepTwo_d P L' c = Inr c' \<and> True \<and> cells_prepared (set_cell k c' L')"
      by simp
  qed
  then show ?thesis
    unfolding pass2_d_def by blast
qed

lemma pass3_d_not_negative:
  assumes d: "distinct ks" and nn: "cells_not_negative L"
  shows "\<exists>L3. pass3_d P rnd ks L = Inr L3 \<and> map fst (cells L3) = map fst (cells L)
           \<and> cells_not_negative L3"
proof -
  have "\<exists>L3. forEach (visit (\<lambda>k L c. Inr (stepThree_d P (rnd k) c))) ks L = Inr L3
          \<and> cells_not_negative L3
          \<and> lattice_size L3 = lattice_size L
          \<and> map fst (cells L3) = map fst (cells L)
          \<and> (\<forall>k. rel_option (\<lambda>c c'. if k \<in> set ks then True else c' = c)
                              (cell_at L k) (cell_at L3 k))"
  proof (rule forEach_visit_rule [OF d, where G = cells_not_negative])
    show "cells_not_negative L" by (rule nn)
  next
    fix L' :: "number CrystalLattice" and k c
    assume g: "cells_not_negative L'" and c: "cell_at L' k = Some c"
    then have "masses_not_negative (stepThree_d P (rnd k) c)"
      by (intro stepThree_d_not_negative cells_not_negativeD)
    then have "cells_not_negative (set_cell k (stepThree_d P (rnd k) c) L')"
      using g by (intro cells_not_negative_set_cell)
    then show "\<exists>c'. Inr (stepThree_d P (rnd k) c) = Inr c' \<and> True
                 \<and> cells_not_negative (set_cell k c' L')"
      by simp
  qed
  then show ?thesis
    unfolding pass3_d_def by blast
qed

lemma step_d_not_negative:
  assumes ok: "params_ok_d P" and d: "distinct (map fst (cells L))"
    and nn: "cells_not_negative L"
  shows "\<exists>L'. step_d P rnd L = Inr L' \<and> map fst (cells L') = map fst (cells L)
           \<and> cells_not_negative L'"
proof -
  from pass1_d_prepared [OF d nn] obtain L1 where
    L1: "pass1_d (map fst (cells L)) L = Inr L1" "map fst (cells L1) = map fst (cells L)"
        "cells_prepared L1"
    by blast
  have d1: "distinct (map fst (cells L1))" using d L1(2) by simp
  from pass2_d_prepared [OF ok d1 L1(3)] obtain L2 where
    L2: "pass2_d P (map fst (cells L1)) L1 = Inr L2" "map fst (cells L2) = map fst (cells L1)"
        "cells_prepared L2"
    by blast
  have d2: "distinct (map fst (cells L2))" using d1 L2(2) by simp
  have nn2: "cells_not_negative L2"
    unfolding cells_not_negative_def
    using L2(3) by (blast intro: prepared_not_negative cells_preparedD)
  from pass3_d_not_negative [OF d2 nn2, of P rnd] obtain L3 where
    L3: "pass3_d P rnd (map fst (cells L2)) L2 = Inr L3"
        "map fst (cells L3) = map fst (cells L2)" "cells_not_negative L3"
    by blast
  from L1 L2 L3 show ?thesis
    by (simp add: step_d_def)
qed

lemma steps_d_not_negative:
  assumes "params_ok_d P" and "distinct (map fst (cells L))" and "cells_not_negative L"
  shows "\<exists>L'. steps_d P rnds L = Inr L' \<and> map fst (cells L') = map fst (cells L)
           \<and> cells_not_negative L'"
  using assms(2,3)
proof (induction rnds arbitrary: L)
  case Nil
  then show ?case by simp
next
  case (Cons rnd rnds)
  from step_d_not_negative [OF assms(1) Cons.prems, of rnd] obtain L1 where
    L1: "step_d P rnd L = Inr L1" "map fst (cells L1) = map fst (cells L)"
        "cells_not_negative L1"
    by blast
  from Cons.prems(1) L1(2) have "distinct (map fst (cells L1))" by simp
  from Cons.IH [OF this L1(3)] L1(1,2) show ?case by auto
qed

lemma constructor_not_negative:
  assumes "params_ok_d P" and "constructor P n = Inr L"
  shows "distinct (map fst (cells L)) \<and> cells_not_negative L"
proof -
  have n0: "0 \<le> n"
    using assms(2) by (simp add: constructor_eq split: if_splits)
  from constructor_cells [OF n0, of P] assms(2) have d: "distinct (map fst (cells L))"
    and c: "\<And>q r. cell_at L (q, r)
                      = (if \<bar>q\<bar> \<le> n \<and> \<bar>r\<bar> \<le> n \<and> \<bar>q + r\<bar> \<le> n
                         then Some ((new_cell P q r)\<lparr>attached := (q = 0 \<and> r = 0)\<rparr>)
                         else None)"
    by auto
  have "masses_not_negative c'" if "cell_at L k = Some c'" for k c'
    using that c [of "fst k" "snd k"] assms(1)
    by (auto simp: masses_not_negative_def new_cell_def params_ok_d_def not_negative_of_le
          split: if_splits)
  then have "cells_not_negative L"
    by (simp add: cells_not_negative_def)
  with d show ?thesis by simp
qed

text \<open>
  C8, as amended. Under the preconditions on the parameters, every cell of a constructed
  lattice, and every cell after any number of completed steps with any draws of
  \<^verbatim>\<open>Math.random()\<close>, has a diffusive, a boundary and a crystal mass that is NaN or at
  least zero (possibly \<^verbatim>\<open>Infinity\<close>): no mass is ever negative. The steps run to
  completion.
\<close>

theorem masses_never_negative:
  assumes "params_ok_d P" and "constructor P n = Inr L0"
  shows "all_not_negative L0 \<and> (\<exists>L. steps_d P rnds L0 = Inr L \<and> all_not_negative L)"
proof -
  from constructor_not_negative [OF assms] have d: "distinct (map fst (cells L0))"
    and nn: "cells_not_negative L0"
    by simp_all
  from steps_d_not_negative [OF assms(1) d nn, of rnds] obtain L where
    L: "steps_d P rnds L0 = Inr L" "map fst (cells L) = map fst (cells L0)"
       "cells_not_negative L"
    by blast
  have "distinct (map fst (cells L))" using d L(2) by simp
  with L(1,3) d nn show ?thesis
    by (auto simp: all_not_negative_iff)
qed

lemma default_ok_eval: "params_ok_d default_params_d"
  by code_simp

theorem masses_never_negative_witness:
  "params_ok_d default_params_d
   \<and> (\<exists>L0. constructor default_params_d 1 = Inr L0 \<and> all_not_negative L0
          \<and> (\<exists>L. steps_d default_params_d [no_noise_d, (\<lambda>k. 0)] L0 = Inr L
                 \<and> all_not_negative L))"
proof -
  obtain L0 where L0: "constructor default_params_d 1 = Inr L0"
    by (simp add: constructor_eq)
  from masses_never_negative [OF default_ok_eval L0, of "[no_noise_d, (\<lambda>k. 0)]"]
    default_ok_eval L0
  show ?thesis by blast
qed

lemma humid_step_eval:
  "params_ok_d humid_params
   \<and> (case constructor humid_params 1 of
      Inl e \<Rightarrow> False
    | Inr L0 \<Rightarrow>
        (case step_d humid_params no_noise_d L0 of
           Inl e \<Rightarrow> False
         | Inr L \<Rightarrow>
             (case cell_at L (1, 0) of
                None \<Rightarrow> False
              | Some c \<Rightarrow> crystalMass c = NaN \<and> diffusiveMass c = NaN
                          \<and> \<not> 0 \<le> crystalMass c \<and> \<not> 0 \<le> diffusiveMass c)))"
  by code_simp

text \<open>
  C8 as stated fails. \<^verbatim>\<open>gamma = 1e308\<close> and \<^verbatim>\<open>kappa = 0\<close> meet the preconditions.
  In the first step of a new lattice of radius 1 the diffusion sum of a neighbour of the
  seed, \<^verbatim>\<open>1e308 + 1e308\<close>, overflows to \<^verbatim>\<open>Infinity\<close>; freezing adds
  \<^verbatim>\<open>0 * Infinity = NaN\<close> to the crystal mass, melting carries the NaN into the diffusive
  mass, and the cell ends the step with both masses NaN, of which \<^verbatim>\<open>>= 0\<close> is false.
\<close>

theorem overflow_makes_mass_NaN:
  "params_ok_d humid_params
   \<and> (\<exists>L0 L c. constructor humid_params 1 = Inr L0
          \<and> step_d humid_params no_noise_d L0 = Inr L
          \<and> cell_at L (1, 0) = Some c
          \<and> crystalMass c = NaN \<and> diffusiveMass c = NaN
          \<and> \<not> 0 \<le> crystalMass c \<and> \<not> 0 \<le> diffusiveMass c)"
  using humid_step_eval by (auto split: sum.splits option.splits)

section \<open>The phase transitions conserve mass up to rounding\<close>

lemma tiny_nonneg: "0 \<le> tiny"
  by (simp add: tiny_def)

lemma overflow_threshold_gt: "2 ^ 1010 < overflow_threshold"
  by (simp add: overflow_threshold_def)

lemma fl_bounds:
  assumes "0 \<le> x" and "x \<le> 2 ^ 1010"
  shows "\<exists>z. fl x = Fin z \<and> 0 \<le> z
           \<and> x - (x / 2 ^ 53 + tiny) \<le> z \<and> z \<le> x + (x / 2 ^ 53 + tiny)"
proof -
  have "x < overflow_threshold"
    using assms(2) overflow_threshold_gt by (rule le_less_trans)
  from fl_close [OF assms(1) this] show ?thesis
    by (auto simp only: abs_le_iff tiny_def)
qed

lemma add_bounds:
  assumes "0 \<le> x" "0 \<le> y" "x + y \<le> 2 ^ 1010"
  shows "\<exists>z. Fin x + Fin y = Fin z \<and> 0 \<le> z
           \<and> x + y - ((x + y) / 2 ^ 53 + tiny) \<le> z
           \<and> z \<le> x + y + ((x + y) / 2 ^ 53 + tiny)"
proof -
  have "0 \<le> x + y" using assms by simp
  from fl_bounds [OF this assms(3)] show ?thesis by simp
qed

lemma mult_bounds:
  assumes "0 \<le> k" "k \<le> 2" "0 \<le> y" "y \<le> 2 ^ 1005"
  shows "\<exists>z. Fin k * Fin y = Fin z \<and> 0 \<le> z
           \<and> k * y - (y / 2 ^ 52 + tiny) \<le> z
           \<and> z \<le> k * y + (y / 2 ^ 52 + tiny)"
proof -
  have ky: "0 \<le> k * y" "k * y \<le> 2 * y"
    using assms by (simp_all add: mult_right_mono)
  have "2 * y \<le> 2 * 2 ^ 1005"
    using assms(4) by simp
  also have "\<dots> \<le> (2::rat) ^ 1010" by simp
  finally have "k * y \<le> 2 ^ 1010"
    using ky(2) by (rule order_trans [rotated])
  from fl_bounds [OF ky(1) this] obtain z where
    z: "fl (k * y) = Fin z" "0 \<le> z"
       "k * y - (k * y / 2 ^ 53 + tiny) \<le> z"
       "z \<le> k * y + (k * y / 2 ^ 53 + tiny)"
    by blast
  have "k * y / 2 ^ 53 \<le> 2 * y / 2 ^ 53"
    using ky(2) by (rule divide_right_mono) simp
  also have "\<dots> = y / 2 ^ 52" by simp
  finally have "k * y / 2 ^ 53 \<le> y / 2 ^ 52" .
  with z(3,4) have "k * y - (y / 2 ^ 52 + tiny) \<le> z"
    "z \<le> k * y + (y / 2 ^ 52 + tiny)"
    by linarith+
  with z(1,2) show ?thesis by simp
qed

lemma one_minus_bounds:
  assumes "0 \<le> k" "k \<le> 1"
  shows "\<exists>a. 1 - Fin k = Fin a \<and> 0 \<le> a
           \<and> 1 - k - 1 / 2 ^ 52 \<le> a \<and> a \<le> 1 - k + 1 / 2 ^ 52"
proof -
  have n: "0 \<le> 1 - k" using assms(2) by simp
  have "1 - k \<le> 1" using assms(1) by simp
  also have "\<dots> \<le> (2::rat) ^ 1010" by simp
  finally have "1 - k \<le> 2 ^ 1010" .
  from fl_bounds [OF n this] obtain a where
    a: "fl (1 - k) = Fin a" "0 \<le> a"
       "1 - k - ((1 - k) / 2 ^ 53 + tiny) \<le> a"
       "a \<le> 1 - k + ((1 - k) / 2 ^ 53 + tiny)"
    by blast
  have "(1 - k) / 2 ^ 53 \<le> 1 / 2 ^ 53"
    using assms(1) by (intro divide_right_mono) simp_all
  moreover have "(1::rat) / 2 ^ 53 + tiny \<le> 1 / 2 ^ 52" by (simp add: tiny_def)
  ultimately have "(1 - k) / 2 ^ 53 + tiny \<le> 1 / 2 ^ 52" by linarith
  with a(3,4) have "1 - k - 1 / 2 ^ 52 \<le> a" "a \<le> 1 - k + 1 / 2 ^ 52"
    by linarith+
  with a(1,2) show ?thesis
    by (simp add: minus_number_def one_number_def)
qed

lemma one_minus_mult_bounds:
  assumes "0 \<le> k" "k \<le> 1" "0 \<le> y" "y \<le> 2 ^ 1005"
  shows "\<exists>z. (1 - Fin k) * Fin y = Fin z \<and> Fin y * (1 - Fin k) = Fin z \<and> 0 \<le> z
           \<and> y - k * y - (y / 2 ^ 51 + tiny) \<le> z
           \<and> z \<le> y - k * y + (y / 2 ^ 51 + tiny)"
proof -
  from one_minus_bounds [OF assms(1,2)] obtain a where
    a: "1 - Fin k = Fin a" "0 \<le> a" "1 - k - 1 / 2 ^ 52 \<le> a" "a \<le> 1 - k + 1 / 2 ^ 52"
    by blast
  have "(1::rat) / 2 ^ 52 \<le> 1" by simp
  with a(4) assms(1) have a2: "a \<le> 2" by linarith
  from mult_bounds [OF a(2) a2 assms(3,4)] obtain z where
    z: "Fin a * Fin y = Fin z" "0 \<le> z"
       "a * y - (y / 2 ^ 52 + tiny) \<le> z" "z \<le> a * y + (y / 2 ^ 52 + tiny)"
    by blast
  have "(1 - k - 1 / 2 ^ 52) * y \<le> a * y" "a * y \<le> (1 - k + 1 / 2 ^ 52) * y"
    using a(3,4) assms(3) by (simp_all add: mult_right_mono)
  then have "y - k * y - y / 2 ^ 52 \<le> a * y" "a * y \<le> y - k * y + y / 2 ^ 52"
    by (simp_all add: algebra_simps)
  moreover have "y / 2 ^ 52 + y / 2 ^ 52 = y / 2 ^ 51" by simp
  ultimately have "y - k * y - (y / 2 ^ 51 + tiny) \<le> z"
    "z \<le> y - k * y + (y / 2 ^ 51 + tiny)"
    using z(3,4) by linarith+
  moreover have "Fin y * Fin a = Fin z"
    using z(1) by (simp add: mult.commute)
  ultimately show ?thesis
    using a(1) z(1,2) by simp
qed

lemma rate_cases:
  assumes "0 \<le> r" and "r \<le> (1::number)"
  obtains k where "r = Fin k" "0 \<le> k" "k \<le> 1"
  using assms by (cases r) (simp_all add: zero_number_def one_number_def)

lemma moderate_cases:
  assumes "moderate c"
  obtains d b m where "diffusiveMass c = Fin d" "boundaryMass c = Fin b" "crystalMass c = Fin m"
    "0 \<le> d" "0 \<le> b" "0 \<le> m" "d + b + m \<le> 2 ^ 1000" "exact_total c = Some (d + b + m)"
  using assms
  by (cases "diffusiveMass c"; cases "boundaryMass c"; cases "crystalMass c")
     (simp_all add: moderate_def exact_total_def zero_number_def)

lemma close_totalsI:
  assumes "exact_total c = Some t" and "exact_total c' = Some t'"
    and "t - (t / 2 ^ 48 + 32 * tiny) \<le> t'" and "t' \<le> t + (t / 2 ^ 48 + 32 * tiny)"
  shows "close_totals (exact_total c) (exact_total c')"
proof -
  have "32 * tiny = 1 / 2 ^ 1070"
    by (simp add: tiny_def)
  with assms(3,4) have "\<bar>t' - t\<bar> \<le> t / 2 ^ 48 + 1 / 2 ^ 1070"
    by (simp only: abs_le_iff) linarith
  with assms(1,2) show ?thesis
    by (simp add: close_totals_def)
qed

lemma freezingStep_d_close:
  assumes r: "rates_ok P" and m: "moderate c"
  shows "close_totals (exact_total c) (exact_total (freezingStep_d P c))"
proof (cases "boundary c")
  case False
  from m obtain d b m where "exact_total c = Some (d + b + m)" "0 \<le> d" "0 \<le> b" "0 \<le> m"
    by (rule moderate_cases)
  then show ?thesis
    using False by (simp add: freezingStep_d_def close_totals_def)
next
  case True
  from m obtain d b m where c: "diffusiveMass c = Fin d" "boundaryMass c = Fin b"
    "crystalMass c = Fin m" and n: "0 \<le> d" "0 \<le> b" "0 \<le> m"
    and t: "d + b + m \<le> 2 ^ 1000" and e: "exact_total c = Some (d + b + m)"
    by (rule moderate_cases)
  from r obtain k where k: "kappa P = Fin k" "0 \<le> k" "k \<le> 1"
    by (auto simp: rates_ok_def elim: rate_cases)
  have p: "(2::rat) ^ 1000 \<le> 2 ^ 1005" "(2::rat) ^ 1000 * 4 \<le> 2 ^ 1010" by simp_all
  have d5: "d \<le> 2 ^ 1005" using n t p(1) by linarith
  have kd: "0 \<le> k * d" "k * d \<le> d"
    using k n(1) by (simp_all add: mult_left_le_one_le)
  from one_minus_mult_bounds [OF k(2,3) n(1) d5] obtain z1 where
    z1: "(1 - Fin k) * Fin d = Fin z1" "0 \<le> z1"
        "d - k * d - (d / 2 ^ 51 + tiny) \<le> z1"
        "z1 \<le> d - k * d + (d / 2 ^ 51 + tiny)"
    by blast
  have k2: "k \<le> 2" using k(3) by simp
  from mult_bounds [OF k(2) k2 n(1) d5] obtain z2 where
    z2: "Fin k * Fin d = Fin z2" "0 \<le> z2"
        "k * d - (d / 2 ^ 52 + tiny) \<le> z2"
        "z2 \<le> k * d + (d / 2 ^ 52 + tiny)"
    by blast
  have q: "tiny \<le> 1" "d / 2 ^ 51 \<le> d" "d / 2 ^ 52 \<le> d"
    using n(1) by (simp_all add: tiny_def)
  have "(2::rat) ^ 1000 * 2 + 1 \<le> 2 ^ 1010" by simp
  with z1(4) kd n t q have s1: "b + z1 \<le> 2 ^ 1010" by linarith
  from add_bounds [OF n(2) z1(2) s1] obtain b' where
    b': "Fin b + Fin z1 = Fin b'" "0 \<le> b'"
        "b + z1 - ((b + z1) / 2 ^ 53 + tiny) \<le> b'"
        "b' \<le> b + z1 + ((b + z1) / 2 ^ 53 + tiny)"
    by blast
  have "(2::rat) ^ 1000 * 2 + 1 \<le> 2 ^ 1010" by simp
  with z2(4) kd n t q have s2: "m + z2 \<le> 2 ^ 1010" by linarith
  from add_bounds [OF n(3) z2(2) s2] obtain m' where
    m': "Fin m + Fin z2 = Fin m'" "0 \<le> m'"
        "m + z2 - ((m + z2) / 2 ^ 53 + tiny) \<le> m'"
        "m' \<le> m + z2 + ((m + z2) / 2 ^ 53 + tiny)"
    by blast
  have e': "exact_total (freezingStep_d P c) = Some (0 + b' + m')"
    using True c k z1(1) z2(1) b'(1) m'(1)
    by (simp add: freezingStep_d_def exact_total_def Let_def zero_number_def)
  show ?thesis
  proof (rule close_totalsI [OF e e'])
    show "d + b + m - ((d + b + m) / 2 ^ 48 + 32 * tiny) \<le> 0 + b' + m'"
      using z1(2,3,4) z2(2,3,4) b'(3) m'(3) kd n tiny_nonneg by (simp add: add_divide_distrib)
    show "0 + b' + m' \<le> d + b + m + ((d + b + m) / 2 ^ 48 + 32 * tiny)"
      using z1(2,3,4) z2(2,3,4) b'(4) m'(4) kd n tiny_nonneg by (simp add: add_divide_distrib)
  qed
qed

lemma attach_d_close:
  assumes m: "moderate c"
  shows "close_totals (exact_total c) (exact_total (attach_d c))"
proof -
  from m obtain d b m where c: "diffusiveMass c = Fin d" "boundaryMass c = Fin b"
    "crystalMass c = Fin m" and n: "0 \<le> d" "0 \<le> b" "0 \<le> m"
    and t: "d + b + m \<le> 2 ^ 1000" and e: "exact_total c = Some (d + b + m)"
    by (rule moderate_cases)
  have "(2::rat) ^ 1000 \<le> 2 ^ 1010" by simp
  with n t have s: "m + b \<le> 2 ^ 1010" by linarith
  from add_bounds [OF n(3,2) s] obtain m' where
    m': "Fin m + Fin b = Fin m'" "0 \<le> m'"
        "m + b - ((m + b) / 2 ^ 53 + tiny) \<le> m'"
        "m' \<le> m + b + ((m + b) / 2 ^ 53 + tiny)"
    by blast
  have e': "exact_total (attach_d c) = Some (d + 0 + m')"
    using c m'(1) by (simp add: attach_d_def exact_total_def Let_def zero_number_def)
  show ?thesis
  proof (rule close_totalsI [OF e e'])
    show "d + b + m - ((d + b + m) / 2 ^ 48 + 32 * tiny) \<le> d + 0 + m'"
      using m'(3) n tiny_nonneg by (simp add: add_divide_distrib)
    show "d + 0 + m' \<le> d + b + m + ((d + b + m) / 2 ^ 48 + 32 * tiny)"
      using m'(4) n tiny_nonneg by (simp add: add_divide_distrib)
  qed
qed

lemma meltingStep_d_close:
  assumes r: "rates_ok P" and m: "moderate c"
  shows "close_totals (exact_total c) (exact_total (meltingStep_d P c))"
proof (cases "boundary c")
  case False
  from m obtain d b m where "exact_total c = Some (d + b + m)" "0 \<le> d" "0 \<le> b" "0 \<le> m"
    by (rule moderate_cases)
  then show ?thesis
    using False by (simp add: meltingStep_d_def close_totals_def)
next
  case True
  from m obtain d b m where c: "diffusiveMass c = Fin d" "boundaryMass c = Fin b"
    "crystalMass c = Fin m" and n: "0 \<le> d" "0 \<le> b" "0 \<le> m"
    and t: "d + b + m \<le> 2 ^ 1000" and e: "exact_total c = Some (d + b + m)"
    by (rule moderate_cases)
  from r obtain k where k: "mu P = Fin k" "0 \<le> k" "k \<le> 1"
    by (auto simp: rates_ok_def elim: rate_cases)
  from r obtain l where l: "upsilon P = Fin l" "0 \<le> l" "l \<le> 1"
    by (auto simp: rates_ok_def elim: rate_cases)
  have p: "(2::rat) ^ 1000 \<le> 2 ^ 1005" "(2::rat) ^ 1000 * 4 + 8 \<le> 2 ^ 1010" by simp_all
  have b5: "b \<le> 2 ^ 1005" and m5: "m \<le> 2 ^ 1005" using n t p(1) by linarith+
  have kb: "0 \<le> k * b" "k * b \<le> b" and lm: "0 \<le> l * m" "l * m \<le> m"
    using k l n by (simp_all add: mult_left_le_one_le)
  have k2: "k \<le> 2" and l2: "l \<le> 2" using k(3) l(3) by simp_all
  have q: "tiny \<le> 1" "b / 2 ^ 52 \<le> b" "m / 2 ^ 52 \<le> m"
    using n by (simp_all add: tiny_def)
  from mult_bounds [OF k(2) k2 n(2) b5] obtain z1 where
    z1: "Fin k * Fin b = Fin z1" "0 \<le> z1"
        "k * b - (b / 2 ^ 52 + tiny) \<le> z1" "z1 \<le> k * b + (b / 2 ^ 52 + tiny)"
    by blast
  from mult_bounds [OF l(2) l2 n(3) m5] obtain z2 where
    z2: "Fin l * Fin m = Fin z2" "0 \<le> z2"
        "l * m - (m / 2 ^ 52 + tiny) \<le> z2" "z2 \<le> l * m + (m / 2 ^ 52 + tiny)"
    by blast
  have s1: "z1 + z2 \<le> 2 ^ 1010"
    using z1(4) z2(4) kb lm n t p(2) q by linarith
  from add_bounds [OF z1(2) z2(2) s1] obtain s where
    s: "Fin z1 + Fin z2 = Fin s" "0 \<le> s"
       "z1 + z2 - ((z1 + z2) / 2 ^ 53 + tiny) \<le> s"
       "s \<le> z1 + z2 + ((z1 + z2) / 2 ^ 53 + tiny)"
    by blast
  have q2: "(z1 + z2) / 2 ^ 53 \<le> z1 + z2"
    using z1(2) z2(2) by simp
  have s2: "d + s \<le> 2 ^ 1010"
    using s(4) q2 z1(4) z2(4) kb lm n t p(2) q by linarith
  from add_bounds [OF n(1) s(2) s2] obtain d' where
    d': "Fin d + Fin s = Fin d'" "0 \<le> d'"
        "d + s - ((d + s) / 2 ^ 53 + tiny) \<le> d'"
        "d' \<le> d + s + ((d + s) / 2 ^ 53 + tiny)"
    by blast
  from one_minus_mult_bounds [OF k(2,3) n(2) b5] obtain b' where
    b': "Fin b * (1 - Fin k) = Fin b'" "0 \<le> b'"
        "b - k * b - (b / 2 ^ 51 + tiny) \<le> b'"
        "b' \<le> b - k * b + (b / 2 ^ 51 + tiny)"
    by blast
  from one_minus_mult_bounds [OF l(2,3) n(3) m5] obtain m' where
    m': "Fin m * (1 - Fin l) = Fin m'" "0 \<le> m'"
        "m - l * m - (m / 2 ^ 51 + tiny) \<le> m'"
        "m' \<le> m - l * m + (m / 2 ^ 51 + tiny)"
    by blast
  have e': "exact_total (meltingStep_d P c) = Some (d' + b' + m')"
    using True c k l z1(1) z2(1) s(1) d'(1) b'(1) m'(1)
    by (simp add: meltingStep_d_def exact_total_def Let_def)
  show ?thesis
  proof (rule close_totalsI [OF e e'])
    show "d + b + m - ((d + b + m) / 2 ^ 48 + 32 * tiny) \<le> d' + b' + m'"
      using z1(2,3,4) z2(2,3,4) s(3,4) d'(3) b'(3) m'(3) kb lm n tiny_nonneg
      by (simp add: add_divide_distrib)
    show "d' + b' + m' \<le> d + b + m + ((d + b + m) / 2 ^ 48 + 32 * tiny)"
      using z1(2,3,4) z2(2,3,4) s(3,4) d'(4) b'(4) m'(4) kb lm n tiny_nonneg
      by (simp add: add_divide_distrib)
  qed
qed

text \<open>
  C6, as amended. For rates \<^verbatim>\<open>kappa\<close>, \<^verbatim>\<open>mu\<close>, \<^verbatim>\<open>upsilon\<close> between 0 and 1
  and a cell whose three masses are finite, at least zero and sum to at most
  \<open>2\<^sup>1\<^sup>0\<^sup>0\<^sup>0\<close>, each of freezing, melting and the commit of an attachment leaves finite
  masses, and the exact total of the three masses after it differs from the total before by
  at most \<open>2\<^sup>-\<^sup>4\<^sup>8\<close> of that total plus \<open>2\<^sup>-\<^sup>1\<^sup>0\<^sup>7\<^sup>0\<close>: the total is conserved up to
  the rounding of the operations, whether or not the cell is a boundary cell.
\<close>

theorem phase_transitions_conserve_mass_to_rounding:
  assumes "rates_ok P" and "moderate c"
  shows "close_totals (exact_total c) (exact_total (freezingStep_d P c))
         \<and> close_totals (exact_total c) (exact_total (meltingStep_d P c))
         \<and> close_totals (exact_total c) (exact_total (attach_d c))"
  using freezingStep_d_close [OF assms] meltingStep_d_close [OF assms]
    attach_d_close [OF assms(2)]
  by simp

lemma sample_eval:
  "rates_ok default_params_d \<and> moderate (boundary_cell (Fin (1 / 2)) (Fin (1 / 4)) 0)"
  by code_simp

theorem phase_transitions_conserve_mass_to_rounding_witness:
  "rates_ok default_params_d \<and> moderate (boundary_cell (Fin (1 / 2)) (Fin (1 / 4)) 0)
   \<and> close_totals (exact_total (boundary_cell (Fin (1 / 2)) (Fin (1 / 4)) 0))
        (exact_total (freezingStep_d default_params_d
                        (boundary_cell (Fin (1 / 2)) (Fin (1 / 4)) 0)))
   \<and> close_totals (exact_total (boundary_cell (Fin (1 / 2)) (Fin (1 / 4)) 0))
        (exact_total (meltingStep_d default_params_d
                        (boundary_cell (Fin (1 / 2)) (Fin (1 / 4)) 0)))
   \<and> close_totals (exact_total (boundary_cell (Fin (1 / 2)) (Fin (1 / 4)) 0))
        (exact_total (attach_d (boundary_cell (Fin (1 / 2)) (Fin (1 / 4)) 0)))"
  using phase_transitions_conserve_mass_to_rounding
          [of default_params_d "boundary_cell (Fin (1 / 2)) (Fin (1 / 4)) 0"]
        sample_eval
  by simp

lemma freezing_default_eval:
  "exact_total (boundary_cell (Fin (1 / 2)) (Fin (1 / 4)) 0) = Some (3 / 4)
   \<and> exact_total (freezingStep_d default_params_d (boundary_cell (Fin (1 / 2)) (Fin (1 / 4)) 0))
       = Some (1729382256910270333 / 2305843009213693952)
   \<and> total_mass_d (boundary_cell (Fin (1 / 2)) (Fin (1 / 4)) 0) = Fin (3 / 4)
   \<and> total_mass_d (freezingStep_d default_params_d (boundary_cell (Fin (1 / 2)) (Fin (1 / 4)) 0))
       = Fin (6755399441055743 / 9007199254740992)"
  by code_simp

lemma melting_default_eval:
  "exact_total (boundary_cell 0 (Fin (1 / 2)) (fl (1 / 10))) = Some (21617278211378381 / 36028797018963968)
   \<and> exact_total (meltingStep_d default_params_d (boundary_cell 0 (Fin (1 / 2)) (fl (1 / 10))))
       = Some (86469112845513519 / 144115188075855872)"
  by code_simp

lemma attach_eval:
  "exact_total (boundary_cell (fl (3 / 10)) (fl (2 / 10)) (fl (1 / 10)))
     = Some (21617278211378381 / 36028797018963968)
   \<and> exact_total (attach_d (boundary_cell (fl (3 / 10)) (fl (2 / 10)) (fl (1 / 10))))
       = Some (10808639105689191 / 18014398509481984)"
  by code_simp

lemma freezing_large_kappa_eval:
  "exact_total (boundary_cell 1 0 0) = Some 1
   \<and> freezingStep_d (default_params_d\<lparr>kappa := fl (10 ^ 20)\<rparr>) (boundary_cell 1 0 0)
       = boundary_cell 0 (Fin (- (10 ^ 20))) (Fin (10 ^ 20))
   \<and> exact_total (boundary_cell 0 (Fin (- (10 ^ 20))) (Fin (10 ^ 20))) = Some 0"
  by code_simp

text \<open>
  C6 as stated fails in the arithmetic of the language. With the default parameters,
  freezing a boundary cell with masses \<^verbatim>\<open>(0.5, 0.25, 0)\<close> changes the exact total from
  \<open>3/4\<close> to a value just below, and the sum that the language computes from
  \<^verbatim>\<open>0.75\<close> to \<^verbatim>\<open>0.7499999999999999\<close>; melting a cell with masses
  \<^verbatim>\<open>(0, 0.5, 0.1)\<close> and attaching a cell with masses \<^verbatim>\<open>(0.3, 0.2, 0.1)\<close> change the
  exact total too. With \<^verbatim>\<open>kappa = 1e20\<close>, freezing a cell with masses
  \<^verbatim>\<open>(1, 0, 0)\<close> stores \<^verbatim>\<open>-1e20\<close> and \<^verbatim>\<open>1e20\<close>, and the total drops from 1 to 0.
\<close>

theorem phase_transitions_change_total_mass:
  "exact_total (boundary_cell (Fin (1 / 2)) (Fin (1 / 4)) 0) = Some (3 / 4)
   \<and> exact_total (freezingStep_d default_params_d (boundary_cell (Fin (1 / 2)) (Fin (1 / 4)) 0))
       = Some (1729382256910270333 / 2305843009213693952)
   \<and> total_mass_d (boundary_cell (Fin (1 / 2)) (Fin (1 / 4)) 0) = Fin (3 / 4)
   \<and> total_mass_d (freezingStep_d default_params_d (boundary_cell (Fin (1 / 2)) (Fin (1 / 4)) 0))
       = Fin (6755399441055743 / 9007199254740992)
   \<and> exact_total (meltingStep_d default_params_d (boundary_cell 0 (Fin (1 / 2)) (fl (1 / 10))))
       \<noteq> exact_total (boundary_cell 0 (Fin (1 / 2)) (fl (1 / 10)))
   \<and> exact_total (attach_d (boundary_cell (fl (3 / 10)) (fl (2 / 10)) (fl (1 / 10))))
       \<noteq> exact_total (boundary_cell (fl (3 / 10)) (fl (2 / 10)) (fl (1 / 10)))
   \<and> exact_total (boundary_cell 1 0 0) = Some 1
   \<and> exact_total (freezingStep_d (default_params_d\<lparr>kappa := fl (10 ^ 20)\<rparr>) (boundary_cell 1 0 0))
       = Some 0"
  using freezing_default_eval melting_default_eval attach_eval freezing_large_kappa_eval
  by simp

end
